theory Spec2Isabelle
  imports Main "HOL-Library.Sublist" "HOL-Library.Char_ord" "HOL-Library.List_Lexorder"
    "HOL-Library.Multiset"
begin

section \<open>The document store of \<^verbatim>\<open>src/index.ts\<close> (class \<^verbatim>\<open>Database<T>\<close>)\<close>

text \<open>
  The class keeps an insertion-ordered \<^verbatim>\<open>Map<string, T>\<close> in memory and writes the whole
  map, as JSON text, into one dynamic property of a host object after every mutation.
  The embedding follows the class method by method. What the host provides
  (\<^verbatim>\<open>JSON.stringify\<close>, \<^verbatim>\<open>JSON.parse\<close>, \<^verbatim>\<open>Math.random\<close>, the dynamic properties) is not code
  of the class: the pure functions are the fields of a record \<open>host\<close>, the dynamic
  properties are a record \<open>storage\<close> carried in the state.
\<close>

subsection \<open>Values and documents\<close>

text \<open>
  A field value is a JavaScript primitive. Numbers are the integers (no \<^verbatim>\<open>NaN\<close>, no
  fractions); nested arrays and objects, whose \<^verbatim>\<open>===\<close> is reference identity, are left out.
  On these values \<^verbatim>\<open>===\<close> is equality.
\<close>

datatype jsval = JUndefined | JNull | JBool bool | JNum int | JStr string

text \<open>
  A document is an object: its own properties in enumeration order. \<^verbatim>\<open>data[key]\<close> is
  \<^verbatim>\<open>undefined\<close> for a missing property.
\<close>

type_synonym doc = "(string \<times> jsval) list"

definition field :: "doc \<Rightarrow> string \<Rightarrow> jsval" where
  "field d key = (case map_of d key of None \<Rightarrow> JUndefined | Some v \<Rightarrow> v)"

subsection \<open>The JavaScript \<^verbatim>\<open>Map\<close>\<close>

text \<open>
  \<^verbatim>\<open>Map<string, T>\<close> iterates in insertion order; \<^verbatim>\<open>set\<close> on a present key replaces the
  value where it stands, on an absent key appends.
\<close>

type_synonym 'v jsmap = "(string \<times> 'v) list"

definition Map_has :: "'v jsmap \<Rightarrow> string \<Rightarrow> bool" where
  "Map_has m k = (k \<in> set (map fst m))"

definition Map_get :: "'v jsmap \<Rightarrow> string \<Rightarrow> 'v option" where
  "Map_get m k = map_of m k"

fun Map_set :: "string \<Rightarrow> 'v \<Rightarrow> 'v jsmap \<Rightarrow> 'v jsmap" where
  "Map_set k v [] = [(k, v)]"
| "Map_set k v ((k', v') # m) = (if k' = k then (k, v) # m else (k', v') # Map_set k v m)"

definition Map_delete :: "string \<Rightarrow> 'v jsmap \<Rightarrow> 'v jsmap" where
  "Map_delete k m = filter (\<lambda>(k', _). k' \<noteq> k) m"

subsection \<open>The host\<close>

text \<open>
  \<open>JSON_parse\<close> gives the entries of a text that decodes to an array of \<^verbatim>\<open>[id, document]\<close>
  pairs, and \<open>None\<close> where \<^verbatim>\<open>JSON.parse\<close> throws. A text that decodes to any other value is
  outside the type \<^verbatim>\<open>[string, T][]\<close> that the code reads it at, and outside the model.
  \<open>Math_random i\<close> is the \<open>i\<close>-th draw of the random source, a natural number;
  \<^verbatim>\<open>Math.floor(Math.random() * 16)\<close> is that number modulo 16, so that it lies in 0..15 as
  the contract of \<^verbatim>\<open>Math.random\<close> says. \<open>Array_sort\<close> is \<^verbatim>\<open>Array.prototype.sort\<close> with a
  comparator, on an array of entries: the language fixes its result for a consistent
  comparator only, and leaves it to the engine otherwise. \<open>StringToNumber\<close> is the conversion
  that the relational operators apply to a string compared with a value that is not a
  string; \<open>None\<close> is \<^verbatim>\<open>NaN\<close>. The numbers of the model are the integers, so the conversion
  is looked at on the strings whose number is an integer or \<^verbatim>\<open>NaN\<close>.
\<close>

record host =
  JSON_stringify :: "doc jsmap \<Rightarrow> string"
  JSON_parse :: "string \<Rightarrow> doc jsmap option"
  Math_random :: "nat \<Rightarrow> nat"
  Array_sort :: "((string \<times> doc) \<Rightarrow> (string \<times> doc) \<Rightarrow> int) \<Rightarrow> (string \<times> doc) list
                   \<Rightarrow> (string \<times> doc) list"
  StringToNumber :: "string \<Rightarrow> int option"

text \<open>
  The object behind \<^verbatim>\<open>storageType\<close>: its dynamic properties, and when the two calls throw
  (an invalid entity, a value over the host's size limit).
\<close>

record storage =
  props :: "string \<rightharpoonup> string"
  get_throws :: "string \<Rightarrow> bool"
  set_throws :: "string \<Rightarrow> string \<Rightarrow> bool"

datatype exn = Error string | HostError

definition getDynamicProperty :: "storage \<Rightarrow> string \<Rightarrow> exn + string option" where
  "getDynamicProperty st key = (if get_throws st key then Inl HostError else Inr (props st key))"

definition setDynamicProperty :: "storage \<Rightarrow> string \<Rightarrow> string \<Rightarrow> exn + storage" where
  "setDynamicProperty st key v =
     (if set_throws st key v then Inl HostError else Inr (st\<lparr>props := (props st)(key \<mapsto> v)\<rparr>))"

subsection \<open>The class\<close>

text \<open>
  \<open>random_calls\<close> counts the calls of \<^verbatim>\<open>Math.random\<close> made so far: the state of the host's
  generator, threaded through the operations.
\<close>

record database =
  collectionName :: string
  storageType :: storage
  collectionValidators :: "(string \<times> (jsval \<Rightarrow> bool) option) list option"
  data :: "doc jsmap"
  random_calls :: nat

definition saveChanges :: "host \<Rightarrow> database \<Rightarrow> bool \<times> database" where
  "saveChanges h db =
     (let entries = data db in
      case setDynamicProperty (storageType db) (collectionName db) (JSON_stringify h entries) of
        Inr st \<Rightarrow> (True, db\<lparr>storageType := st\<rparr>)
      | Inl error \<Rightarrow> (False, db))"

definition validate :: "database \<Rightarrow> doc \<Rightarrow> bool" where
  "validate db d =
     (case collectionValidators db of
        None \<Rightarrow> True
      | Some vs \<Rightarrow> list_all (\<lambda>(key, validator).
          (case validator of None \<Rightarrow> True | Some p \<Rightarrow> p (field d key))) vs)"

definition clear :: "host \<Rightarrow> database \<Rightarrow> bool \<times> database" where
  "clear h db = saveChanges h (db\<lparr>data := []\<rparr>)"

definition delete :: "host \<Rightarrow> database \<Rightarrow> string \<Rightarrow> bool \<times> database" where
  "delete h db ident =
     (if \<not> Map_has (data db) ident then (False, db)
      else let db1 = db\<lparr>data := Map_delete ident (data db)\<rparr>;
               (saved, db2) = saveChanges h db1
           in if \<not> saved then (False, db2) else (True, db2))"

text \<open>
  \<^verbatim>\<open>generateId\<close>: sixteen draws give one candidate, and the \<^verbatim>\<open>do ... while\<close> draws again
  as long as the candidate is a key of the map. The loop has no bound, so the function is
  partial: \<open>None\<close> is the run that never leaves the loop.
\<close>

definition hexdigit :: "nat \<Rightarrow> char" where
  "hexdigit n = ''0123456789abcdef'' ! (n mod 16)"

definition candidate :: "host \<Rightarrow> nat \<Rightarrow> string" where
  "candidate h n = map (\<lambda>i. hexdigit (Math_random h (n + i))) [0..<16]"

partial_function (option) generateId_loop :: "host \<Rightarrow> doc jsmap \<Rightarrow> nat \<Rightarrow> (string \<times> nat) option" where
  "generateId_loop h m n =
     (let ident = candidate h n in
      if Map_has m ident then generateId_loop h m (n + 16) else Some (ident, n + 16))"

definition generateId :: "host \<Rightarrow> database \<Rightarrow> (string \<times> database) option" where
  "generateId h db =
     (case generateId_loop h (data db) (random_calls db) of
        None \<Rightarrow> None
      | Some (ident, n) \<Rightarrow> Some (ident, db\<lparr>random_calls := n\<rparr>))"

text \<open>
  \<open>first_fresh h m n k\<close>: from the \<open>n\<close>-th draw on, the first \<open>k\<close> candidates are keys of
  \<open>m\<close> and the next one is not.
\<close>

definition first_fresh :: "host \<Rightarrow> doc jsmap \<Rightarrow> nat \<Rightarrow> nat \<Rightarrow> bool" where
  "first_fresh h m n k =
     (list_all (\<lambda>j. Map_has m (candidate h (n + 16 * j))) [0..<k]
      \<and> \<not> Map_has m (candidate h (n + 16 * k)))"

text \<open>
  \<^verbatim>\<open>create\<close> returns \<^verbatim>\<open>string | null\<close> (here \<open>Inr (Some id)\<close>, \<open>Inr None\<close>) or throws
  (\<open>Inl\<close>); the outer \<open>None\<close> is the run in which \<^verbatim>\<open>generateId\<close> never returns.
\<close>

definition create :: "host \<Rightarrow> database \<Rightarrow> doc \<Rightarrow> ((exn + string option) \<times> database) option" where
  "create h db d =
     (if \<not> validate db d then Some (Inl (Error ''Invalid data format''), db)
      else case generateId h db of
        None \<Rightarrow> None
      | Some (ident, db1) \<Rightarrow>
          (let db2 = db1\<lparr>data := Map_set ident d (data db1)\<rparr>;
               (saved, db3) = saveChanges h db2
           in if \<not> saved then Some (Inr None, db3\<lparr>data := Map_delete ident (data db3)\<rparr>)
              else Some (Inr (Some ident), db3)))"

text \<open>
  The spread \<^verbatim>\<open>{ ...existingData, ...data }\<close>: the properties of the first object, each
  overwritten in place by the patch, then the patch's new properties in their order.
\<close>

definition spread :: "doc \<Rightarrow> doc \<Rightarrow> doc" where
  "spread existing patch = foldl (\<lambda>acc (key, v). Map_set key v acc) existing patch"

definition update :: "host \<Rightarrow> database \<Rightarrow> string \<Rightarrow> doc \<Rightarrow> (exn + bool) \<times> database" where
  "update h db ident patch =
     (case Map_get (data db) ident of
        None \<Rightarrow> (Inr False, db)
      | Some existingData \<Rightarrow>
          (let updatedData = spread existingData patch in
           if \<not> validate db updatedData then (Inl (Error ''Invalid data format''), db)
           else let originalData = Map_get (data db) ident;
                    db1 = db\<lparr>data := Map_set ident updatedData (data db)\<rparr>;
                    (saved, db2) = saveChanges h db1
                in if \<not> saved \<and> originalData \<noteq> None
                   then (Inr False, db2\<lparr>data := Map_set ident (the originalData) (data db2)\<rparr>)
                   else (Inr True, db2)))"

subsection \<open>Reading\<close>

text \<open>The results \<^verbatim>\<open>{ id, data }\<close> are pairs.\<close>

definition findById :: "database \<Rightarrow> string \<Rightarrow> (string \<times> doc) option" where
  "findById db ident = (case Map_get (data db) ident of None \<Rightarrow> None | Some d \<Rightarrow> Some (ident, d))"

definition findMany :: "database \<Rightarrow> (doc \<Rightarrow> bool) option \<Rightarrow> (string \<times> doc) list" where
  "findMany db predicate =
     (case predicate of
        Some p \<Rightarrow> map (\<lambda>(ident, d). (ident, d)) (filter (\<lambda>(_, d). p d) (data db))
      | None \<Rightarrow> map (\<lambda>(ident, d). (ident, d)) (data db))"

definition size_db :: "database \<Rightarrow> nat" where
  "size_db db = length (data db)"

subsection \<open>Conditions\<close>

text \<open>
  \<^verbatim>\<open>String(v)\<close> and \<^verbatim>\<open>toLowerCase\<close> on ASCII text; \<^verbatim>\<open>includes\<close>, \<^verbatim>\<open>startsWith\<close> and
  \<^verbatim>\<open>endsWith\<close> are \<open>sublist\<close>, \<open>prefix\<close> and \<open>suffix\<close>.
\<close>

fun digits :: "nat \<Rightarrow> string" where
  "digits n = (if n < 10 then [char_of (48 + n)] else digits (n div 10) @ [char_of (48 + n mod 10)])"

definition String_js :: "jsval \<Rightarrow> string" where
  "String_js v =
     (case v of
        JUndefined \<Rightarrow> ''undefined''
      | JNull \<Rightarrow> ''null''
      | JBool b \<Rightarrow> (if b then ''true'' else ''false'')
      | JNum n \<Rightarrow> (if n < 0 then CHR ''-'' # digits (nat (- n)) else digits (nat n))
      | JStr s \<Rightarrow> s)"

definition toLowerCase :: "string \<Rightarrow> string" where
  "toLowerCase s =
     map (\<lambda>c. if CHR ''A'' \<le> c \<and> c \<le> CHR ''Z'' then char_of (of_char c + (32::nat)) else c) s"

text \<open>
  \<^verbatim>\<open>findLike\<close>: without a list of fields the search goes over \<^verbatim>\<open>Object.keys\<close> of each
  document. \<^verbatim>\<open>String\<close> of a primitive value does not throw, so the \<^verbatim>\<open>catch\<close> has no case
  here.
\<close>

definition findLike :: "database \<Rightarrow> string \<Rightarrow> string list option \<Rightarrow> (string \<times> doc) list" where
  "findLike db term fieldList =
     (let lowerCaseTerm = toLowerCase term in
      map (\<lambda>(ident, d). (ident, d))
        (filter (\<lambda>(_, d).
            let searchFields = (case fieldList of Some fs \<Rightarrow> fs | None \<Rightarrow> map fst d)
            in list_ex (\<lambda>fld. sublist lowerCaseTerm (toLowerCase (String_js (field d fld))))
                 searchFields)
          (data db)))"

text \<open>
  The relational operators. Two strings are compared by their characters; any other pair
  is compared as numbers, and a comparison with \<^verbatim>\<open>NaN\<close> is undefined (\<open>None\<close>), which makes
  each of \<^verbatim>\<open><\<close>, \<^verbatim>\<open>>\<close>, \<^verbatim>\<open><=\<close>, \<^verbatim>\<open>>=\<close> false. The number of a string is the host's.
\<close>

definition ToNumber :: "host \<Rightarrow> jsval \<Rightarrow> int option" where
  "ToNumber h v =
     (case v of
        JUndefined \<Rightarrow> None
      | JNull \<Rightarrow> Some 0
      | JBool b \<Rightarrow> Some (if b then 1 else 0)
      | JNum n \<Rightarrow> Some n
      | JStr s \<Rightarrow> StringToNumber h s)"

definition IsLessThan :: "host \<Rightarrow> jsval \<Rightarrow> jsval \<Rightarrow> bool option" where
  "IsLessThan h x y =
     (case (x, y) of
        (JStr s, JStr t) \<Rightarrow> Some (s < t)
      | _ \<Rightarrow> (case (ToNumber h x, ToNumber h y) of
                (Some m, Some n) \<Rightarrow> Some (m < n)
              | _ \<Rightarrow> None))"

definition js_lt :: "host \<Rightarrow> jsval \<Rightarrow> jsval \<Rightarrow> bool" where
  "js_lt h x y = (IsLessThan h x y = Some True)"

definition js_gt :: "host \<Rightarrow> jsval \<Rightarrow> jsval \<Rightarrow> bool" where
  "js_gt h x y = (IsLessThan h y x = Some True)"

definition js_le :: "host \<Rightarrow> jsval \<Rightarrow> jsval \<Rightarrow> bool" where
  "js_le h x y = (IsLessThan h y x = Some False)"

definition js_ge :: "host \<Rightarrow> jsval \<Rightarrow> jsval \<Rightarrow> bool" where
  "js_ge h x y = (IsLessThan h x y = Some False)"

record FilterCondition =
  cond_field :: string
  cond_operator :: string
  cond_value :: jsval

definition evaluateCondition :: "host \<Rightarrow> doc \<Rightarrow> FilterCondition \<Rightarrow> bool" where
  "evaluateCondition h d condition =
     (let v = field d (cond_field condition);
          conditionValue = cond_value condition;
          operator = cond_operator condition
      in if operator = ''=='' then v = conditionValue
         else if operator = ''!='' then v \<noteq> conditionValue
         else if operator = ''>'' then js_gt h v conditionValue
         else if operator = ''<'' then js_lt h v conditionValue
         else if operator = ''>='' then js_ge h v conditionValue
         else if operator = ''<='' then js_le h v conditionValue
         else if operator = ''contains''
           then sublist (toLowerCase (String_js conditionValue)) (toLowerCase (String_js v))
         else if operator = ''startsWith''
           then prefix (toLowerCase (String_js conditionValue)) (toLowerCase (String_js v))
         else if operator = ''endsWith''
           then suffix (toLowerCase (String_js conditionValue)) (toLowerCase (String_js v))
         else False)"

definition count :: "host \<Rightarrow> database \<Rightarrow> FilterCondition option \<Rightarrow> nat" where
  "count h db condition =
     (case condition of
        None \<Rightarrow> size_db db
      | Some c \<Rightarrow> length (filter (\<lambda>d. evaluateCondition h d c) (map snd (data db))))"

subsection \<open>Query\<close>

text \<open>
  The argument \<^verbatim>\<open>sort\<close> is an object: the model takes its properties in the order in which
  the caller wrote them. \<^verbatim>\<open>Object.entries\<close> lists the properties whose names are array
  indices first, in ascending order of the index, and the others after them in the order
  written.
\<close>

definition is_digit :: "char \<Rightarrow> bool" where
  "is_digit c = (CHR ''0'' \<le> c \<and> c \<le> CHR ''9'')"

definition index_value :: "string \<Rightarrow> int" where
  "index_value s = foldl (\<lambda>acc c. 10 * acc + (of_char c - 48)) 0 s"

definition is_array_index :: "string \<Rightarrow> bool" where
  "is_array_index s =
     (s \<noteq> [] \<and> list_all is_digit s \<and> (s = ''0'' \<or> hd s \<noteq> CHR ''0'')
      \<and> index_value s < 4294967295)"

definition Object_entries :: "(string \<times> 'v) list \<Rightarrow> (string \<times> 'v) list" where
  "Object_entries obj =
     sort_key (\<lambda>(key, _). index_value key) (filter (\<lambda>(key, _). is_array_index key) obj)
     @ filter (\<lambda>(key, _). \<not> is_array_index key) obj"

text \<open>
  The comparator of \<^verbatim>\<open>query\<close>, on \<^verbatim>\<open>Object.entries(sort)\<close>: the first field on which the two
  documents differ decides, and any direction other than \<^verbatim>\<open>'asc'\<close> reverses.
\<close>

fun compareDocs :: "host \<Rightarrow> (string \<times> string) list \<Rightarrow> doc \<Rightarrow> doc \<Rightarrow> int" where
  "compareDocs h [] a b = 0"
| "compareDocs h ((fld, direction) # sortEntries) a b =
     (let aVal = field a fld; bVal = field b fld in
      if aVal = bVal then compareDocs h sortEntries a b
      else let comparison = (if js_lt h aVal bVal then - 1 else 1)
           in if direction = ''asc'' then comparison else - comparison)"

text \<open>
  \<^verbatim>\<open>slice(0, limit)\<close> for an integer \<^verbatim>\<open>limit\<close>: a negative end counts from the end of the
  array.
\<close>

definition Array_slice0 :: "'a list \<Rightarrow> int \<Rightarrow> 'a list" where
  "Array_slice0 xs limit =
     (let len = int (length xs);
          final = (if limit < 0 then max (len + limit) 0 else min limit len)
      in take (nat final) xs)"

definition query ::
  "host \<Rightarrow> database \<Rightarrow> FilterCondition list \<Rightarrow> (string \<times> string) list option \<Rightarrow> int option
     \<Rightarrow> (string \<times> doc) list" where
  "query h db conditions sortOptions limit =
     (let results = filter (\<lambda>(_, d). list_all (\<lambda>condition. evaluateCondition h d condition) conditions)
                      (data db);
          results1 = (case sortOptions of
                        None \<Rightarrow> results
                      | Some sortObject \<Rightarrow>
                          (let sortEntries = Object_entries sortObject
                           in Array_sort h (\<lambda>(_, a) (_, b). compareDocs h sortEntries a b) results));
          results2 = (case limit of None \<Rightarrow> results1 | Some l \<Rightarrow> Array_slice0 results1 l)
      in map (\<lambda>(ident, d). (ident, d)) results2)"

subsection \<open>Export, import, construction\<close>

definition export :: "host \<Rightarrow> database \<Rightarrow> string" where
  "export h db = JSON_stringify h (data db)"

definition import :: "host \<Rightarrow> database \<Rightarrow> string \<Rightarrow> bool \<times> database" where
  "import h db txt =
     (case JSON_parse h txt of
        None \<Rightarrow> (False, db)
      | Some entries \<Rightarrow>
          (let validEntries = filter (\<lambda>(_, v). validate db v) entries;
               (_, db1) = clear h db;
               db2 = db1\<lparr>data := foldl (\<lambda>m (ident, v). Map_set ident v m) (data db1) validEntries\<rparr>
           in saveChanges h db2))"

text \<open>
  \<^verbatim>\<open>initialize\<close>: the \<^verbatim>\<open>catch\<close> block runs when reading the property throws and when the
  text does not parse; an absent or empty text skips the \<^verbatim>\<open>if (storedData)\<close> body.
\<close>

definition recover :: "host \<Rightarrow> database \<Rightarrow> database" where
  "recover h db = (let (_, db1) = clear h db; (_, db2) = saveChanges h db1 in db2)"

definition initialize :: "host \<Rightarrow> database \<Rightarrow> database" where
  "initialize h db =
     (case getDynamicProperty (storageType db) (collectionName db) of
        Inl error \<Rightarrow> recover h db
      | Inr storedData \<Rightarrow>
          (case storedData of
             None \<Rightarrow> db
           | Some txt \<Rightarrow>
               if txt = [] then db
               else (case JSON_parse h txt of
                       None \<Rightarrow> recover h db
                     | Some entries \<Rightarrow>
                         db\<lparr>data := foldl (\<lambda>m (ident, d). if validate db d then Map_set ident d m else m)
                                       (data db) entries\<rparr>)))"

definition new_Database ::
  "host \<Rightarrow> nat \<Rightarrow> string \<Rightarrow> storage \<Rightarrow> (string \<times> (jsval \<Rightarrow> bool) option) list option
     \<Rightarrow> exn + database" where
  "new_Database h n name st validators =
     (if length name < 1 \<or> length name > 16
      then Inl (Error ''Collection name must be between 1 and 16 characters'')
      else Inr (initialize h \<lparr>collectionName = name, storageType = st,
                  collectionValidators = validators, data = [], random_calls = n\<rparr>))"

subsection \<open>The earlier variant of the class\<close>

text \<open>
  \<^verbatim>\<open>index.ts\<close> and \<^verbatim>\<open>index.js\<close> at the root of the repository hold an earlier variant, in which
  the class extends \<^verbatim>\<open>Map\<close>: \<^verbatim>\<open>saveChanges\<close> returns nothing, \<^verbatim>\<open>generateId\<close> draws one candidate
  and does not look at the map, and \<^verbatim>\<open>create\<close> stores through the overridden \<^verbatim>\<open>set\<close>. The claims
  are settled on the class of \<^verbatim>\<open>src/index.ts\<close> above; these definitions record where the
  earlier variant differs.
\<close>

definition legacy_saveChanges :: "host \<Rightarrow> database \<Rightarrow> database" where
  "legacy_saveChanges h db =
     (let entries = data db in
      case setDynamicProperty (storageType db) (collectionName db) (JSON_stringify h entries) of
        Inr st \<Rightarrow> db\<lparr>storageType := st\<rparr>
      | Inl error \<Rightarrow> db)"

definition legacy_generateId :: "host \<Rightarrow> database \<Rightarrow> string \<times> database" where
  "legacy_generateId h db =
     (candidate h (random_calls db), db\<lparr>random_calls := random_calls db + 16\<rparr>)"

definition legacy_set :: "host \<Rightarrow> database \<Rightarrow> string \<Rightarrow> doc \<Rightarrow> exn + database" where
  "legacy_set h db ident v =
     (if \<not> validate db v then Inl (Error ''Invalid data format'')
      else Inr (legacy_saveChanges h (db\<lparr>data := Map_set ident v (data db)\<rparr>)))"

definition legacy_create :: "host \<Rightarrow> database \<Rightarrow> doc \<Rightarrow> (exn + string) \<times> database" where
  "legacy_create h db d =
     (if \<not> validate db d then (Inl (Error ''Invalid data format''), db)
      else let (ident, db1) = legacy_generateId h db
           in case legacy_set h db1 ident d of
                Inl error \<Rightarrow> (Inl error, db1)
              | Inr db2 \<Rightarrow> (Inr ident, db2))"

subsection \<open>Sequences of calls, and the validity of a state\<close>

text \<open>
  A caller that calls \<^verbatim>\<open>create\<close> for each document in turn and keeps every outcome, a thrown
  error included; the identifiers among the outcomes; and the statement that every
  document of the map passes \<^verbatim>\<open>validate\<close>.
\<close>

fun create_calls ::
  "host \<Rightarrow> database \<Rightarrow> doc list \<Rightarrow> ((exn + string option) list \<times> database) option" where
  "create_calls h db [] = Some ([], db)"
| "create_calls h db (d # ds) =
     (case create h db d of
        None \<Rightarrow> None
      | Some (r, db1) \<Rightarrow>
          (case create_calls h db1 ds of
             None \<Rightarrow> None
           | Some (rs, db2) \<Rightarrow> Some (r # rs, db2)))"

definition returned_ids :: "(exn + string option) list \<Rightarrow> string list" where
  "returned_ids rs = concat (map (\<lambda>r. case r of Inr (Some ident) \<Rightarrow> [ident] | _ \<Rightarrow> []) rs)"

definition all_valid :: "database \<Rightarrow> bool" where
  "all_valid db = list_all (\<lambda>(_, d). validate db d) (data db)"

subsection \<open>Fields of one kind\<close>

text \<open>
  The data model asks that a field holds values of one kind in all documents. For stating
  what the sort guarantees: \<open>homogeneous sortEntries ds\<close> says that each sort field holds
  numbers in all of \<open>ds\<close>, or strings in all, or booleans in all.
\<close>

definition is_number :: "jsval \<Rightarrow> bool" where
  "is_number v = (case v of JNum _ \<Rightarrow> True | _ \<Rightarrow> False)"

definition is_string :: "jsval \<Rightarrow> bool" where
  "is_string v = (case v of JStr _ \<Rightarrow> True | _ \<Rightarrow> False)"

definition is_boolean :: "jsval \<Rightarrow> bool" where
  "is_boolean v = (case v of JBool _ \<Rightarrow> True | _ \<Rightarrow> False)"


text \<open>Two values of one kind; two documents of one kind on every sort field.\<close>

definition same_kind :: "jsval \<Rightarrow> jsval \<Rightarrow> bool" where
  "same_kind x y \<longleftrightarrow> is_number x \<and> is_number y \<or> is_string x \<and> is_string y
                      \<or> is_boolean x \<and> is_boolean y"

definition kinds :: "(string \<times> string) list \<Rightarrow> doc \<Rightarrow> doc \<Rightarrow> bool" where
  "kinds se a b \<longleftrightarrow> (\<forall>(fld, direction)\<in>set se. same_kind (field a fld) (field b fld))"

subsection \<open>The contract of the sort\<close>

text \<open>
  A comparator is consistent on a set when the sign of \<open>cmp b a\<close> is the opposite of the
  sign of \<open>cmp a b\<close> and \<open>cmp a b \<le> 0\<close> is transitive. For a consistent comparator
  \<^verbatim>\<open>Array.prototype.sort\<close> returns the elements in the order of the comparator and keeps the
  elements that compare equal in the order they had (the sort is stable); for any
  comparator it returns a rearrangement of the array. \<open>ecma_sort h\<close> says that the sort of
  the host \<open>h\<close> does so.
\<close>

definition consistent :: "('a \<Rightarrow> 'a \<Rightarrow> int) \<Rightarrow> 'a set \<Rightarrow> bool" where
  "consistent cmp S \<longleftrightarrow>
     (\<forall>a\<in>S. \<forall>b\<in>S. (cmp a b < 0 \<longleftrightarrow> 0 < cmp b a))
     \<and> (\<forall>a\<in>S. \<forall>b\<in>S. \<forall>c\<in>S. cmp a b \<le> 0 \<and> cmp b c \<le> 0 \<longrightarrow> cmp a c \<le> 0)"


subsection \<open>Sample data\<close>

text \<open>
  Three users, in the order Ann, Cid, Ben, under the identifiers that the sample random
  source produces first, and two more: Dan, whose age the validators reject, and Eve, who
  has a property \<^verbatim>\<open>nick\<close> with the value \<^verbatim>\<open>undefined\<close>; and a collection in which Ben has no
  age. The sample host writes JSON text for
  documents of printable strings and integers (a property that is \<^verbatim>\<open>undefined\<close> is left
  out, as \<^verbatim>\<open>JSON.stringify\<close> does); it parses the text of the snapshots listed in
  \<open>known_snapshots\<close> and rejects the text \<^verbatim>\<open>{\<close>, which is all the examples below ask of it.
  It converts the strings that are decimal integer literals to numbers (the examples
  compare no string with a number). Its sort follows the merge sorts of the engines on a
  short array: it takes the run that the array starts with, ascending or strictly
  descending, turns a descending run around, and inserts the remaining elements one by
  one, each behind the elements that it does not precede (found from the front, where an
  engine may search by halving). The validators are in the style of the README. One store takes every write, one has a size limit, one holds a given text
  under a given key.
\<close>

definition ann :: doc where
  "ann = [(''name'', JStr ''Ann''), (''age'', JNum 20)]"

definition ben :: doc where
  "ben = [(''name'', JStr ''Ben''), (''age'', JNum 30)]"

definition cid :: doc where
  "cid = [(''name'', JStr ''Cid''), (''age'', JNum 20)]"

definition dan :: doc where
  "dan = [(''name'', JStr ''Dan''), (''age'', JNum (- 1))]"

definition eve :: doc where
  "eve = [(''name'', JStr ''Eve''), (''age'', JNum 40), (''nick'', JUndefined)]"



definition sample_entries :: "doc jsmap" where
  "sample_entries =
     [(''0123456789abcdef'', ann), (''123456789abcdef0'', cid), (''23456789abcdef01'', ben)]"

fun join :: "string \<Rightarrow> string list \<Rightarrow> string" where
  "join sep [] = []"
| "join sep [x] = x"
| "join sep (x # y # ys) = x @ sep @ join sep (y # ys)"

definition json_string :: "string \<Rightarrow> string" where
  "json_string s =
     [CHR 0x22] @ concat (map (\<lambda>c. if c = CHR 0x22 \<or> c = CHR 0x5C then [CHR 0x5C, c] else [c]) s)
       @ [CHR 0x22]"

definition json_value :: "jsval \<Rightarrow> string" where
  "json_value v = (case v of JStr s \<Rightarrow> json_string s | _ \<Rightarrow> String_js v)"

definition json_doc :: "doc \<Rightarrow> string" where
  "json_doc d =
     ''{'' @ join '','' (map (\<lambda>(key, v). json_string key @ '':'' @ json_value v)
                          (filter (\<lambda>(key, v). v \<noteq> JUndefined) d)) @ ''}''"

definition json_entries :: "doc jsmap \<Rightarrow> string" where
  "json_entries m =
     ''['' @ join '','' (map (\<lambda>(ident, d). ''['' @ json_string ident @ '','' @ json_doc d @ '']'') m)
       @ '']''"

definition mixed_entries :: "doc jsmap" where
  "mixed_entries = [(''0123456789abcdef'', ann), (''123456789abcdef0'', dan)]"

definition known_snapshots :: "doc jsmap list" where
  "known_snapshots =
     [[], [(''0123456789abcdef'', ann)], sample_entries, mixed_entries,
      [(''0123456789abcdef'', [(''name'', JStr ''Eve''), (''age'', JNum 40)])]]"

definition is_space :: "char \<Rightarrow> bool" where
  "is_space c = (c \<in> set [CHR '' '', CHR 0x09, CHR 0x0A, CHR 0x0B, CHR 0x0C, CHR 0x0D])"

definition trim :: "string \<Rightarrow> string" where
  "trim s = rev (dropWhile is_space (rev (dropWhile is_space s)))"

definition digits_value :: "string \<Rightarrow> int option" where
  "digits_value s =
     (if s \<noteq> [] \<and> list_all is_digit s then Some (index_value s) else None)"

definition decimal_literal :: "string \<Rightarrow> int option" where
  "decimal_literal s =
     (case trim s of
        [] \<Rightarrow> Some 0
      | c # cs \<Rightarrow>
          if c = CHR ''-'' then map_option uminus (digits_value cs)
          else if c = CHR ''+'' then digits_value cs
          else digits_value (c # cs))"

fun run_ascending :: "('a \<Rightarrow> 'a \<Rightarrow> int) \<Rightarrow> 'a \<Rightarrow> 'a list \<Rightarrow> 'a list \<times> 'a list" where
  "run_ascending cmp p [] = ([], [])"
| "run_ascending cmp p (x # xs) =
     (if cmp x p < 0 then ([], x # xs)
      else let (run, rest) = run_ascending cmp x xs in (x # run, rest))"

fun run_descending :: "('a \<Rightarrow> 'a \<Rightarrow> int) \<Rightarrow> 'a \<Rightarrow> 'a list \<Rightarrow> 'a list \<times> 'a list" where
  "run_descending cmp p [] = ([], [])"
| "run_descending cmp p (x # xs) =
     (if cmp x p < 0 then let (run, rest) = run_descending cmp x xs in (x # run, rest)
      else ([], x # xs))"

fun initial_run :: "('a \<Rightarrow> 'a \<Rightarrow> int) \<Rightarrow> 'a list \<Rightarrow> 'a list \<times> 'a list" where
  "initial_run cmp [] = ([], [])"
| "initial_run cmp [x] = ([x], [])"
| "initial_run cmp (x # y # ys) =
     (if cmp y x < 0 then let (run, rest) = run_descending cmp y ys in (rev (x # y # run), rest)
      else let (run, rest) = run_ascending cmp y ys in (x # y # run, rest))"

fun insert_sorted :: "('a \<Rightarrow> 'a \<Rightarrow> int) \<Rightarrow> 'a \<Rightarrow> 'a list \<Rightarrow> 'a list" where
  "insert_sorted cmp x [] = [x]"
| "insert_sorted cmp x (y # ys) =
     (if cmp x y < 0 then x # y # ys else y # insert_sorted cmp x ys)"

definition run_sort :: "('a \<Rightarrow> 'a \<Rightarrow> int) \<Rightarrow> 'a list \<Rightarrow> 'a list" where
  "run_sort cmp xs =
     (let (run, rest) = initial_run cmp xs in foldl (\<lambda>acc x. insert_sorted cmp x acc) run rest)"

definition sample_host :: host where
  "sample_host =
     \<lparr>JSON_stringify = json_entries,
      JSON_parse = (\<lambda>s. find (\<lambda>m. json_entries m = s) known_snapshots),
      Math_random = (\<lambda>i. i + i div 16),
      Array_sort = run_sort,
      StringToNumber = decimal_literal\<rparr>"

definition sample_validators :: "(string \<times> (jsval \<Rightarrow> bool) option) list option" where
  "sample_validators =
     Some [(''name'', Some (\<lambda>v. case v of JStr s \<Rightarrow> length s > 0 | _ \<Rightarrow> False)),
           (''age'', Some (\<lambda>v. js_gt sample_host v (JNum 0)))]"

definition open_storage :: storage where
  "open_storage = \<lparr>props = Map.empty, get_throws = (\<lambda>_. False), set_throws = (\<lambda>_ _. False)\<rparr>"

definition limited_storage :: "nat \<Rightarrow> storage" where
  "limited_storage n =
     \<lparr>props = Map.empty, get_throws = (\<lambda>_. False), set_throws = (\<lambda>_ v. length v > n)\<rparr>"

definition storage_holding :: "string \<Rightarrow> string \<Rightarrow> storage" where
  "storage_holding key txt = open_storage\<lparr>props := [key \<mapsto> txt]\<rparr>"

definition sample_db :: "storage \<Rightarrow> doc jsmap \<Rightarrow> database" where
  "sample_db st m =
     \<lparr>collectionName = ''users'', storageType = st, collectionValidators = sample_validators,
      data = m, random_calls = 0\<rparr>"

section \<open>Properties\<close>

subsection \<open>The map and the save\<close>

lemma Map_set_absent: "\<not> Map_has m k \<Longrightarrow> Map_set k v m = m @ [(k, v)]"
  by (induction m) (auto simp: Map_has_def)

lemma Map_delete_set_absent: "\<not> Map_has m k \<Longrightarrow> Map_delete k (Map_set k v m) = m"
  by (induction m) (auto simp: Map_has_def Map_delete_def)

lemma Map_set_set: "Map_set k v (Map_set k w m) = Map_set k v m"
  by (induction m) auto

lemma Map_set_same: "Map_get m k = Some v \<Longrightarrow> Map_set k v m = m"
  by (induction m) (auto simp: Map_get_def)

lemma Map_has_delete: "\<not> Map_has (Map_delete k m) k"
  by (auto simp: Map_has_def Map_delete_def)

lemma saveChanges_eq:
  "saveChanges h db =
     (if set_throws (storageType db) (collectionName db) (JSON_stringify h (data db))
      then (False, db)
      else (True, db\<lparr>storageType := (storageType db)\<lparr>props := (props (storageType db))
             (collectionName db \<mapsto> JSON_stringify h (data db))\<rparr>\<rparr>))"
  by (simp add: saveChanges_def setDynamicProperty_def Let_def)

subsection \<open>Deleting\<close>

text \<open>
  C10. For an identifier in the collection, \<^verbatim>\<open>delete\<close> removes the document from the map
  before it saves, whatever the save does: the map afterwards is the old one without the
  identifier. When the save fails, \<^verbatim>\<open>delete\<close> returns false, the store is as before, and
  the document is not put back.
\<close>

theorem delete_not_restored:
  assumes "Map_has (data db) ident"
  shows "data (snd (delete h db ident)) = Map_delete ident (data db)
    \<and> \<not> Map_has (data (snd (delete h db ident))) ident
    \<and> (set_throws (storageType db) (collectionName db) (JSON_stringify h (Map_delete ident (data db)))
        \<longrightarrow> fst (delete h db ident) = False
          \<and> storageType (snd (delete h db ident)) = storageType db)"
  using assms
  by (simp add: delete_def saveChanges_eq Map_has_delete Let_def)

theorem delete_not_restored_witness:
  "Map_has (data (sample_db (limited_storage 1) [(''0123456789abcdef'', ann)])) ''0123456789abcdef''
   \<and> set_throws (limited_storage 1) ''users''
        (JSON_stringify sample_host (Map_delete ''0123456789abcdef'' [(''0123456789abcdef'', ann)]))
   \<and> fst (delete sample_host (sample_db (limited_storage 1) [(''0123456789abcdef'', ann)])
        ''0123456789abcdef'') = False
   \<and> data (snd (delete sample_host (sample_db (limited_storage 1) [(''0123456789abcdef'', ann)])
        ''0123456789abcdef'')) = []"
  using delete_not_restored [of "sample_db (limited_storage 1) [(''0123456789abcdef'', ann)]"
      "''0123456789abcdef''" sample_host]
  by (simp add: sample_db_def Map_has_def Map_delete_def limited_storage_def
      sample_host_def json_entries_def)

subsection \<open>Generating identifiers\<close>

lemma first_fresh_iff:
  "first_fresh h m n k \<longleftrightarrow>
     (\<forall>j<k. Map_has m (candidate h (n + 16 * j))) \<and> \<not> Map_has m (candidate h (n + 16 * k))"
  by (auto simp: first_fresh_def list_all_iff)

lemma generateId_loop_first_fresh:
  "first_fresh h m n k \<Longrightarrow>
   generateId_loop h m n = Some (candidate h (n + 16 * k), n + 16 * (k + 1))"
proof (induction k arbitrary: n)
  case 0
  then show ?case by (subst generateId_loop.simps) (simp add: first_fresh_iff)
next
  case (Suc k)
  have taken: "Map_has m (candidate h n)"
    using Suc.prems first_fresh_iff [of h m n "Suc k"] by force
  have "first_fresh h m (n + 16) k"
    unfolding first_fresh_iff
  proof (intro conjI allI impI)
    fix j assume "j < k"
    then have "Map_has m (candidate h (n + 16 * Suc j))"
      using Suc.prems first_fresh_iff [of h m n "Suc k"] by auto
    then show "Map_has m (candidate h (n + 16 + 16 * j))" by (simp add: add.assoc)
  next
    show "\<not> Map_has m (candidate h (n + 16 + 16 * k))"
      using Suc.prems first_fresh_iff [of h m n "Suc k"] by (simp add: add.assoc)
  qed
  from Suc.IH [OF this] taken show ?case
    by (subst generateId_loop.simps) (simp add: add.assoc)
qed

lemma first_fresh_exists:
  assumes "\<not> Map_has m (candidate h (n + 16 * k))"
  shows "\<exists>k'\<le>k. first_fresh h m n k'"
proof -
  define P where "P j \<longleftrightarrow> \<not> Map_has m (candidate h (n + 16 * j))" for j
  have "P k" using assms by (simp add: P_def)
  then have "P (Least P)" and "Least P \<le> k" and "\<forall>j<Least P. \<not> P j"
    by (auto intro: LeastI Least_le dest: not_less_Least)
  then show ?thesis unfolding first_fresh_iff P_def by blast
qed

lemma generateId_first_fresh:
  "first_fresh h (data db) (random_calls db) k \<Longrightarrow>
   generateId h db = Some (candidate h (random_calls db + 16 * k),
                           db\<lparr>random_calls := random_calls db + 16 * (k + 1)\<rparr>)"
  by (simp add: generateId_def generateId_loop_first_fresh)


subsection \<open>Creating\<close>

text \<open>
  C1. Let the document pass validation, let the generator reach a candidate that is not a
  key after \<open>k\<close> retries, and let the save of the map with the new document fail. Then
  \<^verbatim>\<open>create\<close> returns \<^verbatim>\<open>null\<close>, and the state afterwards is the state before the call but
  for the draws consumed: the map is the old map, the store is untouched.
\<close>

theorem create_rollback:
  assumes "validate db d"
    and "first_fresh h (data db) (random_calls db) k"
    and "set_throws (storageType db) (collectionName db)
           (JSON_stringify h (Map_set (candidate h (random_calls db + 16 * k)) d (data db)))"
  shows "create h db d = Some (Inr None, db\<lparr>random_calls := random_calls db + 16 * (k + 1)\<rparr>)"
proof -
  have absent: "\<not> Map_has (data db) (candidate h (random_calls db + 16 * k))"
    using assms(2) by (simp add: first_fresh_iff)
  show ?thesis
    using assms(1,3)
    by (simp add: create_def generateId_first_fresh [OF assms(2)] saveChanges_eq
        Map_delete_set_absent [OF absent])
qed

theorem create_rollback_witness:
  "validate (sample_db (limited_storage 100) [(''0123456789abcdef'', ann), (''123456789abcdef0'', cid)]) ben
   \<and> first_fresh sample_host [(''0123456789abcdef'', ann), (''123456789abcdef0'', cid)] 0 2
   \<and> candidate sample_host 32 = ''23456789abcdef01''
   \<and> Map_set ''23456789abcdef01'' ben [(''0123456789abcdef'', ann), (''123456789abcdef0'', cid)]
       = sample_entries
   \<and> set_throws (limited_storage 100) ''users'' (JSON_stringify sample_host sample_entries)
   \<and> create sample_host
        (sample_db (limited_storage 100) [(''0123456789abcdef'', ann), (''123456789abcdef0'', cid)]) ben
      = Some (Inr None,
          (sample_db (limited_storage 100) [(''0123456789abcdef'', ann), (''123456789abcdef0'', cid)])
            \<lparr>random_calls := 48\<rparr>)"
proof -
  let ?m = "[(''0123456789abcdef'', ann), (''123456789abcdef0'', cid)]"
  let ?db = "sample_db (limited_storage 100) ?m"
  have v: "validate ?db ben" by code_simp
  have f: "first_fresh sample_host (data ?db) (random_calls ?db) 2" by code_simp
  have c: "candidate sample_host 32 = ''23456789abcdef01''" by code_simp
  have m: "Map_set ''23456789abcdef01'' ben ?m = sample_entries" by code_simp
  have t: "set_throws (limited_storage 100) ''users'' (JSON_stringify sample_host sample_entries)"
    by code_simp
  have sel: "data ?db = ?m" "random_calls ?db = 0" "storageType ?db = limited_storage 100"
    "collectionName ?db = ''users''"
    by (simp_all add: sample_db_def)
  from create_rollback [OF v f] v f c m t sel show ?thesis by simp
qed

subsection \<open>Updating\<close>

lemma map_of_Map_set: "map_of (Map_set k v m) = (map_of m)(k \<mapsto> v)"
  by (induction m) (auto simp: fun_eq_iff)

lemma field_Map_set: "field (Map_set k v d) key = (if key = k then v else field d key)"
  by (simp add: field_def map_of_Map_set)

lemma field_spread:
  "field (spread existing patch) key =
     (case map_of (rev patch) key of None \<Rightarrow> field existing key | Some v \<Rightarrow> v)"
proof (induction patch arbitrary: existing)
  case Nil
  show ?case by (simp add: spread_def)
next
  case (Cons p patch)
  obtain k v where p: "p = (k, v)" by (cases p)
  have "spread existing (p # patch) = spread (Map_set k v existing) patch"
    by (simp add: spread_def p)
  then show ?case
    using Cons.IH [of "Map_set k v existing"]
    by (auto simp: p field_Map_set map_add_def split: option.splits)
qed

lemma field_spread_other:
  "key \<notin> fst ` set patch \<Longrightarrow> field (spread existing patch) key = field existing key"
proof -
  assume "key \<notin> fst ` set patch"
  then have "map_of (rev patch) key = None"
    by (simp add: map_of_eq_None_iff)
  then show ?thesis by (simp add: field_spread)
qed

lemma validate_rejects:
  assumes "collectionValidators db = Some vs" and "(key, Some p) \<in> set vs" and "\<not> p (field d key)"
  shows "\<not> validate db d"
proof -
  have "\<not> (case (key, Some p) of (key, validator) \<Rightarrow>
           (case validator of None \<Rightarrow> True | Some p \<Rightarrow> p (field d key)))"
    using assms(3) by simp
  with assms(2) have "\<not> list_all (\<lambda>(key, validator).
           (case validator of None \<Rightarrow> True | Some p \<Rightarrow> p (field d key))) vs"
    unfolding list_all_iff by blast
  then show ?thesis by (simp add: validate_def assms(1))
qed

text \<open>
  C3. For an identifier in the collection, \<^verbatim>\<open>update\<close> validates the merged document, the
  existing document with the patch spread over it (\<open>field_spread\<close>: a field named in the
  patch has the patch's value, every other field keeps the existing value). If the merged
  document fails validation, \<^verbatim>\<open>update\<close> throws and the state is unchanged. If it passes
  and the save fails, \<^verbatim>\<open>update\<close> returns false and the state is the state before the
  call: the stored document is the old one again. A validator on a field that the patch
  does not name is still applied, to the existing value of that field.
\<close>

theorem update_validates_merged:
  assumes "Map_get (data db) ident = Some existing"
  shows "(\<not> validate db (spread existing patch)
            \<longrightarrow> update h db ident patch = (Inl (Error ''Invalid data format''), db))
    \<and> (validate db (spread existing patch)
         \<and> set_throws (storageType db) (collectionName db)
             (JSON_stringify h (Map_set ident (spread existing patch) (data db)))
            \<longrightarrow> update h db ident patch = (Inr False, db))
    \<and> (collectionValidators db = Some vs \<and> (key, Some p) \<in> set vs
         \<and> key \<notin> fst ` set patch \<and> \<not> p (field existing key)
            \<longrightarrow> update h db ident patch = (Inl (Error ''Invalid data format''), db))"
proof (intro conjI impI)
  assume "\<not> validate db (spread existing patch)"
  then show "update h db ident patch = (Inl (Error ''Invalid data format''), db)"
    using assms by (simp add: update_def)
next
  assume "validate db (spread existing patch)
         \<and> set_throws (storageType db) (collectionName db)
             (JSON_stringify h (Map_set ident (spread existing patch) (data db)))"
  then show "update h db ident patch = (Inr False, db)"
    using assms by (simp add: update_def saveChanges_eq Map_set_set Map_set_same)
next
  assume a: "collectionValidators db = Some vs \<and> (key, Some p) \<in> set vs
         \<and> key \<notin> fst ` set patch \<and> \<not> p (field existing key)"
  then have "\<not> p (field (spread existing patch) key)"
    by (simp add: field_spread_other)
  with a have "\<not> validate db (spread existing patch)"
    using validate_rejects [of db vs key p "spread existing patch"] by simp
  then show "update h db ident patch = (Inl (Error ''Invalid data format''), db)"
    using assms by (simp add: update_def)
qed

subsection \<open>Counting\<close>

text \<open>
  C8. Without a condition, \<^verbatim>\<open>count\<close> is the length of \<^verbatim>\<open>findMany\<close> under the predicate that
  is always true, and it is the size accessor. With a condition, \<^verbatim>\<open>count\<close> is the number
  of entries whose document satisfies it, which is the length of \<^verbatim>\<open>findMany\<close> under that
  condition.
\<close>

theorem count_findMany:
  "count h db None = length (findMany db (Some (\<lambda>_. True)))
   \<and> count h db None = size_db db
   \<and> count h db (Some c) = length (filter (\<lambda>(_, d). evaluateCondition h d c) (data db))
   \<and> count h db (Some c) = length (findMany db (Some (\<lambda>d. evaluateCondition h d c)))"
proof -
  have "filter (\<lambda>d. evaluateCondition h d c) (map snd (data db))
      = map snd (filter (\<lambda>(_, d). evaluateCondition h d c) (data db))"
    by (induction "data db") (auto simp: filter_map o_def case_prod_beta)
  then show ?thesis
    by (simp add: count_def findMany_def size_db_def case_prod_beta)
qed

theorem update_validates_merged_witness:
  "Map_get (data (sample_db (limited_storage 10) [(''0123456789abcdef'', ann)])) ''0123456789abcdef''
     = Some ann
   \<and> \<not> validate (sample_db (limited_storage 10) [(''0123456789abcdef'', ann)])
         (spread ann [(''age'', JNum (- 5))])
   \<and> update sample_host (sample_db (limited_storage 10) [(''0123456789abcdef'', ann)])
         ''0123456789abcdef'' [(''age'', JNum (- 5))]
       = (Inl (Error ''Invalid data format''),
          sample_db (limited_storage 10) [(''0123456789abcdef'', ann)])
   \<and> validate (sample_db (limited_storage 10) [(''0123456789abcdef'', ann)])
         (spread ann [(''age'', JNum 21)])
   \<and> set_throws (limited_storage 10) ''users''
         (JSON_stringify sample_host
            (Map_set ''0123456789abcdef'' (spread ann [(''age'', JNum 21)])
               [(''0123456789abcdef'', ann)]))
   \<and> update sample_host (sample_db (limited_storage 10) [(''0123456789abcdef'', ann)])
         ''0123456789abcdef'' [(''age'', JNum 21)]
       = (Inr False, sample_db (limited_storage 10) [(''0123456789abcdef'', ann)])
   \<and> update sample_host
         (sample_db open_storage [(''0123456789abcdef'', [(''name'', JStr []), (''age'', JNum 20)])])
         ''0123456789abcdef'' [(''age'', JNum 21)]
       = (Inl (Error ''Invalid data format''),
          sample_db open_storage [(''0123456789abcdef'', [(''name'', JStr []), (''age'', JNum 20)])])"
proof -
  let ?i = "''0123456789abcdef''"
  let ?db = "sample_db (limited_storage 10) [(?i, ann)]"
  let ?bad = "[(''name'', JStr []), (''age'', JNum 20)]"
  let ?db2 = "sample_db open_storage [(?i, ?bad)]"
  let ?p = "\<lambda>v. case v of JStr s \<Rightarrow> length s > 0 | _ \<Rightarrow> False"
  have g: "Map_get (data ?db) ?i = Some ann" by (simp add: sample_db_def Map_get_def)
  have a: "\<not> validate ?db (spread ann [(''age'', JNum (- 5))])" by code_simp
  have b: "validate ?db (spread ann [(''age'', JNum 21)])" by code_simp
  have c: "set_throws (limited_storage 10) ''users''
         (JSON_stringify sample_host (Map_set ?i (spread ann [(''age'', JNum 21)]) [(?i, ann)]))"
    by code_simp
  have sel: "data ?db = [(?i, ann)]" "storageType ?db = limited_storage 10"
    "collectionName ?db = ''users''"
    by (simp_all add: sample_db_def)
  have g2: "Map_get (data ?db2) ?i = Some ?bad" by (simp add: sample_db_def Map_get_def)
  have d: "collectionValidators ?db2 = Some [(''name'', Some ?p), (''age'', Some (\<lambda>v. js_gt sample_host v (JNum 0)))]
      \<and> (''name'', Some ?p) \<in> set [(''name'', Some ?p), (''age'', Some (\<lambda>v. js_gt sample_host v (JNum 0)))]
      \<and> ''name'' \<notin> fst ` set [(''age'', JNum 21)] \<and> \<not> ?p (field ?bad ''name'')"
    by (simp add: sample_db_def sample_validators_def field_def)
  from update_validates_merged [OF g, of "[(''age'', JNum (- 5))]" sample_host] a
  have 1: "update sample_host ?db ?i [(''age'', JNum (- 5))] = (Inl (Error ''Invalid data format''), ?db)"
    by blast
  from update_validates_merged [OF g, of "[(''age'', JNum 21)]" sample_host] b c sel
  have 2: "update sample_host ?db ?i [(''age'', JNum 21)] = (Inr False, ?db)"
    by simp
  from update_validates_merged [OF g2, of "[(''age'', JNum 21)]" sample_host _ "''name''" ?p] d
  have 3: "update sample_host ?db2 ?i [(''age'', JNum 21)] = (Inl (Error ''Invalid data format''), ?db2)"
    by blast
  from g a b c 1 2 3 show ?thesis by blast
qed

theorem count_findMany_witness:
  "count sample_host (sample_db open_storage sample_entries) None = 3
   \<and> length (findMany (sample_db open_storage sample_entries) (Some (\<lambda>_. True))) = 3
   \<and> count sample_host (sample_db open_storage sample_entries)
        (Some \<lparr>cond_field = ''age'', cond_operator = ''=='', cond_value = JNum 20\<rparr>) = 2"
proof -
  have "count sample_host (sample_db open_storage sample_entries) None = 3" by code_simp
  moreover have "count sample_host (sample_db open_storage sample_entries)
        (Some \<lparr>cond_field = ''age'', cond_operator = ''=='', cond_value = JNum 20\<rparr>) = 2"
    by code_simp
  ultimately show ?thesis
    using count_findMany [of sample_host "sample_db open_storage sample_entries"] by simp
qed


subsection \<open>The sample sort keeps the contract\<close>

lemma consistent_sign:
  assumes "consistent cmp S" "a \<in> S" "b \<in> S"
  shows "cmp a b < 0 \<longleftrightarrow> 0 < cmp b a"
  using assms unfolding consistent_def by blast

lemma consistent_zero:
  assumes "consistent cmp S" "a \<in> S" "b \<in> S"
  shows "cmp a b = 0 \<longleftrightarrow> cmp b a = 0"
  using consistent_sign [OF assms] consistent_sign [OF assms(1,3,2)] by linarith


lemma consistent_trans:
  assumes "consistent cmp S" "a \<in> S" "b \<in> S" "c \<in> S" "cmp a b \<le> 0" "cmp b c \<le> 0"
  shows "cmp a c \<le> 0"
  using assms unfolding consistent_def by blast


lemma consistent_le_strict:
  assumes c: "consistent cmp S" and m: "a \<in> S" "b \<in> S" "c \<in> S"
    and ab: "cmp a b \<le> 0" and bc: "cmp b c < 0"
  shows "cmp a c < 0"
proof (rule ccontr)
  assume "\<not> cmp a c < 0"
  moreover have "cmp a c \<le> 0" using consistent_trans [OF c m] ab bc by simp
  ultimately have "cmp a c = 0" by simp
  then have "cmp c a \<le> 0" using consistent_zero [OF c m(1,3)] by simp
  with ab have "cmp c b \<le> 0" using consistent_trans [OF c m(3,1,2)] by simp
  with bc show False using consistent_sign [OF c m(2,3)] by simp
qed
















subsection \<open>Querying\<close>

lemma pairs_again: "map (\<lambda>(ident, d). (ident, d)) xs = xs"
  by (induction xs) auto




lemma query_limit:
  "query h db conds so (Some l) = Array_slice0 (query h db conds so None) l"
  by (simp add: query_def pairs_again Let_def)

lemma Array_slice0_eq:
  "Array_slice0 xs l = (if 0 \<le> l then take (nat l) xs else take (length xs - nat (- l)) xs)"
proof (cases "0 \<le> l")
  case True
  then show ?thesis
    by (auto simp: Array_slice0_def Let_def min_def)
next
  case False
  then have "nat (max (int (length xs) + l) 0) = length xs - nat (- l)"
    by (simp add: max_def nat_diff_distrib') linarith
  with False show ?thesis
    by (simp add: Array_slice0_def Let_def)
qed

text \<open>
  What \<^verbatim>\<open>query\<close> does with a limit: a limit \<open>l \<ge> 0\<close> keeps the first \<open>l\<close> results, a negative
  limit \<open>- k\<close> keeps all results but the last \<open>k\<close>.
\<close>

lemma query_limit_eq:
  "query h db conds so (Some l)
     = (if 0 \<le> l then take (nat l) (query h db conds so None)
        else take (length (query h db conds so None) - nat (- l)) (query h db conds so None))"
  by (simp add: query_limit Array_slice0_eq)

text \<open>
  C4. \<^verbatim>\<open>query\<close> keeps the entries whose document satisfies every condition and cuts the
  result with \<^verbatim>\<open>slice(0, limit)\<close>; the declarations document \<^verbatim>\<open>limit\<close> as the maximum number
  of results. The claim that a negative limit bounds the result to at most the first
  \<open>limit\<close> matches does not hold of the code: with three matches and the limit \<open>- 1\<close> the
  code returns the first two, where the first \<open>- 1\<close> matches are none.
\<close>

theorem query_negative_limit:
  "query sample_host (sample_db open_storage sample_entries) [] None None
     = [(''0123456789abcdef'', ann), (''123456789abcdef0'', cid), (''23456789abcdef01'', ben)]
   \<and> query sample_host (sample_db open_storage sample_entries) [] None (Some (- 1))
     = [(''0123456789abcdef'', ann), (''123456789abcdef0'', cid)]
   \<and> query sample_host (sample_db open_storage sample_entries) [] None (Some (- 1))
     \<noteq> take (nat (- 1)) (query sample_host (sample_db open_storage sample_entries) [] None None)"
proof -
  have 1: "query sample_host (sample_db open_storage sample_entries) [] None None
     = [(''0123456789abcdef'', ann), (''123456789abcdef0'', cid), (''23456789abcdef01'', ben)]"
    by code_simp
  have 2: "query sample_host (sample_db open_storage sample_entries) [] None (Some (- 1))
     = [(''0123456789abcdef'', ann), (''123456789abcdef0'', cid)]"
    by code_simp
  show ?thesis unfolding 1 2 by simp
qed

subsection \<open>Sorting\<close>








lemma same_kind_sym: "same_kind x y \<Longrightarrow> same_kind y x"
  by (auto simp: same_kind_def)

lemma kinds_sym: "kinds se a b \<Longrightarrow> kinds se b a"
  by (auto simp: kinds_def same_kind_sym)












subsection \<open>What the generator returns\<close>

lemma generateId_loop_Some:
  assumes "generateId_loop h m n = Some y"
  shows "\<exists>k. first_fresh h m n k \<and> y = (candidate h (n + 16 * k), n + 16 * (k + 1))"
proof (rule generateId_loop.raw_induct
    [where P = "\<lambda>h m n y. \<exists>k. first_fresh h m n k
                  \<and> y = (candidate h (n + 16 * k), n + 16 * (k + 1))", OF _ assms])
  fix loop :: "host \<Rightarrow> doc jsmap \<Rightarrow> nat \<Rightarrow> (string \<times> nat) option"
    and h m n y
  assume IH: "\<And>h m n y. loop h m n = Some y \<Longrightarrow>
      \<exists>k. first_fresh h m n k \<and> y = (candidate h (n + 16 * k), n + 16 * (k + 1))"
    and step: "(let ident = candidate h n in
         if Map_has m ident then loop h m (n + 16) else Some (ident, n + 16)) = Some y"
  show "\<exists>k. first_fresh h m n k \<and> y = (candidate h (n + 16 * k), n + 16 * (k + 1))"
  proof (cases "Map_has m (candidate h n)")
    case True
    with step have "loop h m (n + 16) = Some y" by (simp add: Let_def)
    from IH [OF this] obtain k where k: "first_fresh h m (n + 16) k"
      "y = (candidate h (n + 16 + 16 * k), n + 16 + 16 * (k + 1))" by blast
    have "first_fresh h m n (Suc k)"
      unfolding first_fresh_iff
    proof (intro conjI allI impI)
      fix j assume "j < Suc k"
      show "Map_has m (candidate h (n + 16 * j))"
      proof (cases j)
        case 0
        with True show ?thesis by simp
      next
        case (Suc i)
        with \<open>j < Suc k\<close> k(1) have "Map_has m (candidate h (n + 16 + 16 * i))"
          by (simp add: first_fresh_iff)
        with Suc show ?thesis by (simp add: add.assoc)
      qed
    next
      from k(1) show "\<not> Map_has m (candidate h (n + 16 * Suc k))"
        by (simp add: first_fresh_iff add.assoc)
    qed
    with k(2) show ?thesis by (intro exI [of _ "Suc k"]) (simp add: add.assoc)
  next
    case False
    with step have "y = (candidate h n, n + 16)" by (simp add: Let_def)
    with False show ?thesis by (intro exI [of _ 0]) (simp add: first_fresh_iff)
  qed
qed

lemma generateId_Some:
  assumes "generateId h db = Some (ident, db1)"
  shows "\<exists>k. first_fresh h (data db) (random_calls db) k
            \<and> ident = candidate h (random_calls db + 16 * k)
            \<and> db1 = db\<lparr>random_calls := random_calls db + 16 * (k + 1)\<rparr>"
proof -
  from assms obtain n where "generateId_loop h (data db) (random_calls db) = Some (ident, n)"
    and db1: "db1 = db\<lparr>random_calls := n\<rparr>"
    by (auto simp: generateId_def split: option.splits)
  from generateId_loop_Some [OF this(1)] db1 show ?thesis by auto
qed

lemma generateId_never_returns:
  assumes "\<forall>k. Map_has (data db) (candidate h (random_calls db + 16 * k))"
  shows "generateId h db = None"
proof (cases "generateId h db")
  case None
  then show ?thesis .
next
  case (Some r)
  then obtain ident db1 where "generateId h db = Some (ident, db1)" by (cases r) simp
  from generateId_Some [OF this] assms show ?thesis by (auto simp: first_fresh_iff)
qed

lemma hexdigit_in: "hexdigit n \<in> set ''0123456789abcdef''"
proof -
  have "n mod 16 < length ''0123456789abcdef''" by simp
  then show ?thesis unfolding hexdigit_def by (rule nth_mem)
qed

lemma candidate_hex: "length (candidate h n) = 16 \<and> set (candidate h n) \<subseteq> set ''0123456789abcdef''"
  using hexdigit_in by (auto simp: candidate_def simp del: set_simps)

lemma Map_delete_append_absent: "\<not> Map_has m k \<Longrightarrow> Map_delete k (m @ [(k, v)]) = m"
  using Map_delete_set_absent [of m k v] by (simp add: Map_set_absent)

lemma create_outcome:
  assumes "create h db d = Some (r, db')"
  shows "(\<exists>ident. r = Inr (Some ident) \<and> \<not> Map_has (data db) ident
            \<and> data db' = data db @ [(ident, d)] \<and> validate db d
            \<and> length ident = 16 \<and> set ident \<subseteq> set ''0123456789abcdef'')
       \<or> ((\<forall>ident. r \<noteq> Inr (Some ident)) \<and> data db' = data db)"
proof (cases "validate db d")
  case False
  with assms show ?thesis by (auto simp: create_def)
next
  case True
  with assms obtain ident db1 where g: "generateId h db = Some (ident, db1)"
    by (auto simp: create_def split: option.splits)
  from generateId_Some [OF g] obtain k where k: "first_fresh h (data db) (random_calls db) k"
    "ident = candidate h (random_calls db + 16 * k)"
    "db1 = db\<lparr>random_calls := random_calls db + 16 * (k + 1)\<rparr>" by blast
  have absent: "\<not> Map_has (data db) ident" using k(1,2) by (simp add: first_fresh_iff)
  have hex: "length ident = 16 \<and> set ident \<subseteq> set ''0123456789abcdef''"
    unfolding k(2) by (rule candidate_hex)
  from assms True g k(3) absent hex show ?thesis
    by (auto simp: create_def saveChanges_eq Map_set_absent Map_delete_append_absent Let_def
        split: if_splits)
qed

lemma create_validators:
  "create h db d = Some (r, db') \<Longrightarrow> collectionValidators db' = collectionValidators db"
  by (auto simp: create_def generateId_def saveChanges_eq Let_def split: option.splits if_splits)

lemma returned_ids_Cons:
  "returned_ids (r # rs) = (case r of Inr (Some ident) \<Rightarrow> [ident] | _ \<Rightarrow> []) @ returned_ids rs"
  by (simp add: returned_ids_def)

lemma create_calls_keys:
  "create_calls h db ds = Some (rs, db') \<Longrightarrow>
     map fst (data db') = map fst (data db) @ returned_ids rs
     \<and> distinct (returned_ids rs)
     \<and> set (returned_ids rs) \<inter> set (map fst (data db)) = {}
     \<and> (\<forall>ident\<in>set (returned_ids rs). length ident = 16 \<and> set ident \<subseteq> set ''0123456789abcdef'')"
proof (induction ds arbitrary: db rs)
  case Nil
  then show ?case by (simp add: returned_ids_def)
next
  case (Cons d ds)
  from Cons.prems obtain r db1 rs1 where c: "create h db d = Some (r, db1)"
    and cs: "create_calls h db1 ds = Some (rs1, db')" and rs: "rs = r # rs1"
    by (auto split: option.splits)
  note IH = Cons.IH [OF cs]
  from create_outcome [OF c] show ?case
  proof
    assume "\<exists>ident. r = Inr (Some ident) \<and> \<not> Map_has (data db) ident
            \<and> data db1 = data db @ [(ident, d)] \<and> validate db d
            \<and> length ident = 16 \<and> set ident \<subseteq> set ''0123456789abcdef''"
    then obtain ident where i: "r = Inr (Some ident)" "\<not> Map_has (data db) ident"
      "data db1 = data db @ [(ident, d)]" "length ident = 16"
      "set ident \<subseteq> set ''0123456789abcdef''" by blast
    have r: "returned_ids rs = ident # returned_ids rs1"
      by (simp add: rs returned_ids_Cons i(1))
    from IH i(3) have keys: "map fst (data db') = map fst (data db) @ ident # returned_ids rs1"
      and d: "distinct (returned_ids rs1)"
      and disj: "set (returned_ids rs1) \<inter> (set (map fst (data db)) \<union> {ident}) = {}"
      and hex: "\<forall>i\<in>set (returned_ids rs1). length i = 16 \<and> set i \<subseteq> set ''0123456789abcdef''"
      by simp_all
    from disj have n1: "ident \<notin> set (returned_ids rs1)"
      and n2: "set (returned_ids rs1) \<inter> set (map fst (data db)) = {}"
      by blast+
    from i(2) have n3: "ident \<notin> set (map fst (data db))" by (simp add: Map_has_def)
    have "distinct (ident # returned_ids rs1)" using d n1 by simp
    moreover have "set (ident # returned_ids rs1) \<inter> set (map fst (data db)) = {}"
      using n2 n3 by simp
    moreover have "\<forall>i\<in>set (ident # returned_ids rs1).
        length i = 16 \<and> set i \<subseteq> set ''0123456789abcdef''"
      using hex i(4,5) by (simp del: set_simps add: list.set(2))
    ultimately show ?thesis
      unfolding r using keys by blast
  next
    assume "(\<forall>ident. r \<noteq> Inr (Some ident)) \<and> data db1 = data db"
    then have "returned_ids rs = returned_ids rs1" and "data db1 = data db"
      by (auto simp: rs returned_ids_Cons split: sum.splits option.splits)
    with IH show ?thesis by simp
  qed
qed

lemma generateId_returns:
  assumes "\<not> Map_has (data db) (candidate h (random_calls db + 16 * k))"
  shows "\<exists>ident db1. generateId h db = Some (ident, db1) \<and> length ident = 16
           \<and> set ident \<subseteq> set ''0123456789abcdef'' \<and> \<not> Map_has (data db) ident
           \<and> data db1 = data db"
proof -
  from first_fresh_exists [OF assms] obtain j where j: "first_fresh h (data db) (random_calls db) j"
    by blast
  then have "\<not> Map_has (data db) (candidate h (random_calls db + 16 * j))"
    by (simp add: first_fresh_iff)
  with generateId_first_fresh [OF j] candidate_hex [of h "random_calls db + 16 * j"]
  show ?thesis by simp
qed

text \<open>
  C2. When the random source reaches, after some number of retries, a candidate that is not
  a key of the map, \<^verbatim>\<open>generateId\<close> returns. Whatever it returns is a string of 16 characters
  among \<^verbatim>\<open>0123456789abcdef\<close> that is not a key of the map, namely the first candidate that is
  not a key: all the candidates before it were keys and were drawn again. The identifiers
  that a sequence of \<^verbatim>\<open>create\<close> calls returns are pairwise distinct, differ from the keys
  the map had before, and are the keys the map has gained.
\<close>

theorem generateId_fresh_and_distinct:
  "(\<not> Map_has (data db) (candidate h (random_calls db + 16 * k))
      \<longrightarrow> (\<exists>ident db1. generateId h db = Some (ident, db1) \<and> length ident = 16
             \<and> set ident \<subseteq> set ''0123456789abcdef'' \<and> \<not> Map_has (data db) ident
             \<and> data db1 = data db))
   \<and> (generateId h db = Some (ident, db1)
      \<longrightarrow> length ident = 16 \<and> set ident \<subseteq> set ''0123456789abcdef''
          \<and> \<not> Map_has (data db) ident
          \<and> (\<exists>j. first_fresh h (data db) (random_calls db) j
                 \<and> ident = candidate h (random_calls db + 16 * j)))
   \<and> (create_calls h db ds = Some (rs, db')
      \<longrightarrow> distinct (returned_ids rs)
          \<and> set (returned_ids rs) \<inter> set (map fst (data db)) = {}
          \<and> map fst (data db') = map fst (data db) @ returned_ids rs)"
proof (intro conjI impI)
  assume "\<not> Map_has (data db) (candidate h (random_calls db + 16 * k))"
  then show "\<exists>ident db1. generateId h db = Some (ident, db1) \<and> length ident = 16
             \<and> set ident \<subseteq> set ''0123456789abcdef'' \<and> \<not> Map_has (data db) ident
             \<and> data db1 = data db"
    by (rule generateId_returns)
next
  assume g: "generateId h db = Some (ident, db1)"
  from generateId_Some [OF g] obtain j where j: "first_fresh h (data db) (random_calls db) j"
    "ident = candidate h (random_calls db + 16 * j)" by blast
  from j show "length ident = 16" "set ident \<subseteq> set ''0123456789abcdef''"
    using candidate_hex [of h "random_calls db + 16 * j"] by simp_all
  from j show "\<not> Map_has (data db) ident" by (simp add: first_fresh_iff)
  from j show "\<exists>j. first_fresh h (data db) (random_calls db) j
                 \<and> ident = candidate h (random_calls db + 16 * j)" by blast
next
  assume c: "create_calls h db ds = Some (rs, db')"
  from create_calls_keys [OF c]
  show "distinct (returned_ids rs)" "set (returned_ids rs) \<inter> set (map fst (data db)) = {}"
    "map fst (data db') = map fst (data db) @ returned_ids rs"
    by simp_all
qed

lemma generateId_loop_retry:
  "Map_has m (candidate h n) \<Longrightarrow> generateId_loop h m n = generateId_loop h m (n + 16)"
  by (subst generateId_loop.simps) simp

lemma generateId_loop_done:
  "\<not> Map_has m (candidate h n) \<Longrightarrow> generateId_loop h m n = Some (candidate h n, n + 16)"
  by (subst generateId_loop.simps) simp

lemma candidate_sample:
  "candidate sample_host 0 = ''0123456789abcdef''"
  "candidate sample_host 16 = ''123456789abcdef0''"
  "candidate sample_host 32 = ''23456789abcdef01''"
  "candidate sample_host 48 = ''3456789abcdef012''"
  by code_simp+

theorem generateId_fresh_and_distinct_witness:
  "\<not> Map_has sample_entries (candidate sample_host (0 + 16 * 3))
   \<and> map_option fst (generateId sample_host (sample_db open_storage sample_entries))
       = Some ''3456789abcdef012''
   \<and> \<not> Map_has sample_entries ''3456789abcdef012''
   \<and> map_option fst (create_calls sample_host (sample_db open_storage [])
         [ann, [(''name'', JStr ''Dan''), (''age'', JNum (- 1))], cid])
       = Some [Inr (Some ''0123456789abcdef''), Inl (Error ''Invalid data format''),
               Inr (Some ''123456789abcdef0'')]
   \<and> distinct (returned_ids [Inr (Some ''0123456789abcdef''), Inl (Error ''Invalid data format''),
               Inr (Some ''123456789abcdef0'')])"
proof -
  let ?db = "sample_db open_storage sample_entries"
  let ?empty = "sample_db open_storage []"
  let ?ds = "[ann, [(''name'', JStr ''Dan''), (''age'', JNum (- 1))], cid]"
  let ?rs = "[Inr (Some ''0123456789abcdef''), Inl (Error ''Invalid data format''),
               Inr (Some ''123456789abcdef0'')]"
  have a: "\<not> Map_has sample_entries (candidate sample_host (0 + 16 * 3))" by code_simp
  have sel: "data ?db = sample_entries" "random_calls ?db = 0" by (simp_all add: sample_db_def)
  have g: "map_option fst (generateId sample_host ?db) = Some ''3456789abcdef012''"
    by (simp add: generateId_def sample_db_def generateId_loop_retry generateId_loop_done
        candidate_sample Map_has_def sample_entries_def)
  then obtain db1 where g1: "generateId sample_host ?db = Some (''3456789abcdef012'', db1)"
    by (cases "generateId sample_host ?db") auto
  have c: "map_option fst (create_calls sample_host ?empty ?ds) = Some ?rs"
    by (simp add: create_def generateId_def saveChanges_eq sample_db_def open_storage_def
        validate_def sample_validators_def ann_def cid_def field_def js_gt_def IsLessThan_def
        ToNumber_def generateId_loop_retry generateId_loop_done candidate_sample Map_has_def)
  then obtain db' where c1: "create_calls sample_host ?empty ?ds = Some (?rs, db')"
    by (cases "create_calls sample_host ?empty ?ds") auto
  from generateId_fresh_and_distinct [of ?db sample_host 3 "''3456789abcdef012''" db1] g1 sel
  have n: "\<not> Map_has sample_entries ''3456789abcdef012''" by simp
  from generateId_fresh_and_distinct [of ?empty sample_host 0 _ _ ?ds ?rs db'] c1
  have d: "distinct (returned_ids ?rs)" by blast
  show ?thesis by (intro conjI) (rule a g n c d)+
qed

subsection \<open>What the operations keep\<close>

lemma validate_cong:
  "collectionValidators a = collectionValidators b \<Longrightarrow> validate a d = validate b d"
  by (simp add: validate_def)

lemma saveChanges_keeps:
  "data (snd (saveChanges h db)) = data db"
  "collectionValidators (snd (saveChanges h db)) = collectionValidators db"
  "collectionName (snd (saveChanges h db)) = collectionName db"
  by (simp_all add: saveChanges_eq)

lemma clear_keeps:
  "data (snd (clear h db)) = []"
  "collectionValidators (snd (clear h db)) = collectionValidators db"
  "collectionName (snd (clear h db)) = collectionName db"
  by (simp_all add: clear_def saveChanges_eq)

lemma recover_keeps:
  "data (recover h db) = []"
  "collectionValidators (recover h db) = collectionValidators db"
  by (simp_all add: recover_def clear_def saveChanges_eq Let_def split: prod.splits)

lemma map_fst_Map_set:
  "map fst (Map_set k v m) = (if Map_has m k then map fst m else map fst m @ [k])"
  by (induction m) (force simp: Map_has_def)+

lemma distinct_Map_set: "distinct (map fst m) \<Longrightarrow> distinct (map fst (Map_set k v m))"
  by (simp add: map_fst_Map_set Map_has_def)

lemma distinct_Map_delete: "distinct (map fst m) \<Longrightarrow> distinct (map fst (Map_delete k m))"
  by (simp add: Map_delete_def distinct_map_filter)

lemma list_all_Map_set: "P (k, v) \<Longrightarrow> list_all P m \<Longrightarrow> list_all P (Map_set k v m)"
  by (induction m) auto

lemma list_all_Map_delete: "list_all P m \<Longrightarrow> list_all P (Map_delete k m)"
  by (simp add: Map_delete_def list_all_iff)

lemma foldl_Map_set_fresh:
  "distinct (map fst es) \<Longrightarrow> set (map fst es) \<inter> set (map fst acc) = {} \<Longrightarrow>
   foldl (\<lambda>m (ident, v). Map_set ident v m) acc es = acc @ es"
proof (induction es arbitrary: acc)
  case Nil
  show ?case by simp
next
  case (Cons e es)
  obtain k v where e: "e = (k, v)" by (cases e)
  from Cons.prems have absent: "\<not> Map_has acc k" by (auto simp: e Map_has_def)
  have "foldl (\<lambda>m (ident, v). Map_set ident v m) (acc @ [(k, v)]) es = (acc @ [(k, v)]) @ es"
    using Cons.prems by (intro Cons.IH) (auto simp: e)
  then show ?case by (simp add: e Map_set_absent [OF absent])
qed

lemma foldl_Map_set_all:
  "list_all P acc \<Longrightarrow> list_all P es \<Longrightarrow>
   list_all P (foldl (\<lambda>m (ident, v). Map_set ident v m) acc es)"
  by (induction es arbitrary: acc) (auto simp: list_all_Map_set)

lemma foldl_Map_set_distinct:
  "distinct (map fst acc) \<Longrightarrow>
   distinct (map fst (foldl (\<lambda>m (ident, v). Map_set ident v m) acc es))"
  by (induction es arbitrary: acc) (auto simp: distinct_Map_set)

lemma foldl_valid_all:
  "list_all (\<lambda>(_, d). Q d) acc \<Longrightarrow>
   list_all (\<lambda>(_, d). Q d)
     (foldl (\<lambda>m (ident, d). if Q d then Map_set ident d m else m) acc es)"
  by (induction es arbitrary: acc) (auto simp: list_all_Map_set)

lemma foldl_valid_distinct:
  "distinct (map fst acc) \<Longrightarrow>
   distinct (map fst (foldl (\<lambda>m (ident, d). if Q d then Map_set ident d m else m) acc es))"
  by (induction es arbitrary: acc) (auto simp: distinct_Map_set)

lemma import_parsed:
  assumes "JSON_parse h txt = Some entries"
  shows "data (snd (import h db txt))
      = foldl (\<lambda>m (ident, v). Map_set ident v m) [] (filter (\<lambda>(_, v). validate db v) entries)"
    and "collectionValidators (snd (import h db txt)) = collectionValidators db"
  using assms
  by (simp_all add: import_def Let_def clear_def saveChanges_eq split: prod.splits)

lemma import_unparsed:
  "JSON_parse h txt = None \<Longrightarrow> import h db txt = (False, db)"
  by (simp add: import_def)

subsection \<open>Export and import\<close>

text \<open>
  C6, as amended. Let every document of a collection pass validation, and let \<^verbatim>\<open>JSON.parse\<close> give back
  the entries that \<^verbatim>\<open>JSON.stringify\<close> wrote for it. Then importing the exported text into a
  collection with the same validators leaves that collection with the same map, entry
  for entry and in the same order, whatever it held before and whether or not its save
  succeeds. (The keys of a \<^verbatim>\<open>Map\<close> are distinct; \<open>keys_distinct\<close> below shows that the
  operations keep them so.)
\<close>

theorem export_import_roundtrip:
  assumes "list_all (\<lambda>(_, d). validate db d) (data db)"
    and "JSON_parse h (JSON_stringify h (data db)) = Some (data db)"
    and "distinct (map fst (data db))"
    and "collectionValidators target = collectionValidators db"
  shows "data (snd (import h target (export h db))) = data db"
proof -
  have "filter (\<lambda>(_, v). validate target v) (data db) = data db"
    using assms(1) validate_cong [OF assms(4)]
    by (simp add: list_all_iff case_prod_beta)
  moreover have "foldl (\<lambda>m (ident, v). Map_set ident v m) [] (data db) = [] @ data db"
    using assms(3) by (intro foldl_Map_set_fresh) simp_all
  ultimately show ?thesis
    using import_parsed(1) [of h "export h db" "data db" target] assms(2)
    by (simp add: export_def)
qed

theorem export_import_roundtrip_witness:
  "list_all (\<lambda>(_, d). validate (sample_db open_storage sample_entries) d) sample_entries
   \<and> JSON_parse sample_host (JSON_stringify sample_host sample_entries) = Some sample_entries
   \<and> distinct (map fst sample_entries)
   \<and> data (snd (import sample_host (sample_db (limited_storage 1) [])
                (export sample_host (sample_db open_storage sample_entries))))
      = sample_entries"
proof -
  let ?db = "sample_db open_storage sample_entries"
  let ?target = "sample_db (limited_storage 1) []"
  have sel: "data ?db = sample_entries" by (simp add: sample_db_def)
  have v: "list_all (\<lambda>(_, d). validate ?db d) (data ?db)" by code_simp
  have p: "JSON_parse sample_host (JSON_stringify sample_host (data ?db)) = Some (data ?db)"
    by code_simp
  have d: "distinct (map fst (data ?db))" by code_simp
  have c: "collectionValidators ?target = collectionValidators ?db" by (simp add: sample_db_def)
  from export_import_roundtrip [OF v p d c] v p d show ?thesis
    unfolding sel by blast
qed

text \<open>
  The claim as stated fails for a document with a property whose value is \<^verbatim>\<open>undefined\<close>:
  \<^verbatim>\<open>JSON.stringify\<close> leaves the property out, the imported document does not have it, and
  \<^verbatim>\<open>findLike\<close>, which goes over the keys of a document, tells the two collections apart.
\<close>

theorem export_import_undefined_counterexample:
  \<open>list_all (\<lambda>(_, d). validate (sample_db open_storage [(''0123456789abcdef'', eve)]) d)
      [(''0123456789abcdef'', eve)]
   \<and> export sample_host (sample_db open_storage [(''0123456789abcdef'', eve)])
      = ''[["0123456789abcdef",{"name":"Eve","age":40}]]''
   \<and> data (snd (import sample_host (sample_db open_storage [])
                  (export sample_host (sample_db open_storage [(''0123456789abcdef'', eve)]))))
      = [(''0123456789abcdef'', [(''name'', JStr ''Eve''), (''age'', JNum 40)])]
   \<and> data (snd (import sample_host (sample_db open_storage [])
                  (export sample_host (sample_db open_storage [(''0123456789abcdef'', eve)]))))
      \<noteq> data (sample_db open_storage [(''0123456789abcdef'', eve)])
   \<and> findLike (sample_db open_storage [(''0123456789abcdef'', eve)]) ''undefined'' None
      = [(''0123456789abcdef'', eve)]
   \<and> findLike (snd (import sample_host (sample_db open_storage [])
                  (export sample_host (sample_db open_storage [(''0123456789abcdef'', eve)]))))
        ''undefined'' None
      = []\<close>
proof -
  let ?db = "sample_db open_storage [(''0123456789abcdef'', eve)]"
  let ?copy = "snd (import sample_host (sample_db open_storage []) (export sample_host ?db))"
  have 1: "list_all (\<lambda>(_, d). validate ?db d) [(''0123456789abcdef'', eve)]" by code_simp
  have 2: \<open>export sample_host ?db = ''[["0123456789abcdef",{"name":"Eve","age":40}]]''\<close>
    by code_simp
  have 3: "data ?copy = [(''0123456789abcdef'', [(''name'', JStr ''Eve''), (''age'', JNum 40)])]"
    by code_simp
  have 4: "data ?copy \<noteq> data ?db"
    unfolding 3 by (simp add: sample_db_def eve_def)
  have 5: "findLike ?db ''undefined'' None = [(''0123456789abcdef'', eve)]" by code_simp
  have 6: "findLike ?copy ''undefined'' None = []" by code_simp
  show ?thesis by (intro conjI) (rule 1 2 3 4 5 6)+
qed

subsection \<open>Loading\<close>

lemma recover_eq:
  "recover h db =
     (if set_throws (storageType db) (collectionName db) (JSON_stringify h [])
      then db\<lparr>data := []\<rparr>
      else db\<lparr>data := [],
              storageType := (storageType db)\<lparr>props := (props (storageType db))
                (collectionName db \<mapsto> JSON_stringify h [])\<rparr>\<rparr>)"
  by (simp add: recover_def clear_def saveChanges_eq)

text \<open>
  C7, as amended. For a name of 1 to 16 characters the constructor returns a collection.
  When reading the stored text throws, or the text is there, is not empty and does not
  parse, the collection is empty and the empty snapshot is saved: it replaces the stored
  text when the store takes the write, and the store is left as it was when the write
  throws. When no text is stored (or the empty text), the collection is empty and nothing
  is written.
\<close>

theorem initialize_recovers:
  assumes "1 \<le> length name" and "length name \<le> 16"
  shows "\<exists>db. new_Database h n name st vs = Inr db
    \<and> (get_throws st name \<or> (\<exists>txt. props st name = Some txt \<and> txt \<noteq> [] \<and> JSON_parse h txt = None)
        \<longrightarrow> data db = []
          \<and> (\<not> set_throws st name (JSON_stringify h [])
               \<longrightarrow> props (storageType db) name = Some (JSON_stringify h []))
          \<and> (set_throws st name (JSON_stringify h []) \<longrightarrow> storageType db = st))
    \<and> (\<not> get_throws st name \<and> (props st name = None \<or> props st name = Some [])
        \<longrightarrow> data db = [] \<and> storageType db = st)"
proof -
  let ?fresh = "\<lparr>collectionName = name, storageType = st, collectionValidators = vs,
                  data = [], random_calls = n\<rparr>"
  have new: "new_Database h n name st vs = Inr (initialize h ?fresh)"
    using assms by (auto simp: new_Database_def)
  have rec: "get_throws st name \<or> (\<exists>txt. props st name = Some txt \<and> txt \<noteq> [] \<and> JSON_parse h txt = None)
      \<Longrightarrow> initialize h ?fresh = recover h ?fresh"
    by (auto simp: initialize_def getDynamicProperty_def)
  have skip: "\<not> get_throws st name \<and> (props st name = None \<or> props st name = Some [])
      \<Longrightarrow> initialize h ?fresh = ?fresh"
    by (auto simp: initialize_def getDynamicProperty_def)
  show ?thesis
    unfolding new
    by (intro exI [of _ "initialize h ?fresh"] conjI impI refl)
       (simp_all add: rec skip recover_eq)
qed

theorem initialize_recovers_witness:
  "1 \<le> length ''users'' \<and> length ''users'' \<le> 16
   \<and> props (storage_holding ''users'' ''{'') ''users'' = Some ''{''
   \<and> JSON_parse sample_host ''{'' = None
   \<and> \<not> set_throws (storage_holding ''users'' ''{'') ''users'' (JSON_stringify sample_host [])
   \<and> (\<exists>db. new_Database sample_host 0 ''users'' (storage_holding ''users'' ''{'') sample_validators
              = Inr db
           \<and> data db = [] \<and> props (storageType db) ''users'' = Some ''[]'')"
proof -
  let ?st = "storage_holding ''users'' ''{''"
  have l: "1 \<le> length ''users''" "length ''users'' \<le> 16" by simp_all
  have s: "props ?st ''users'' = Some ''{''" by (simp add: storage_holding_def)
  have p: "JSON_parse sample_host ''{'' = None" by code_simp
  have w: "\<not> set_throws ?st ''users'' (JSON_stringify sample_host [])"
    by (simp add: storage_holding_def open_storage_def)
  have e: "JSON_stringify sample_host [] = ''[]''" by code_simp
  from initialize_recovers [OF l, of sample_host 0 ?st sample_validators] s p w e
  have "\<exists>db. new_Database sample_host 0 ''users'' ?st sample_validators = Inr db
           \<and> data db = [] \<and> props (storageType db) ''users'' = Some ''[]''"
    by auto
  with l s p w show ?thesis by blast
qed

text \<open>
  The claim as stated fails for a text that is absent: the constructor leaves the store
  without a text for the collection, the empty state is not written.
\<close>

theorem absent_text_not_persisted_counterexample:
  "new_Database sample_host 0 ''users'' open_storage None
     = Inr \<lparr>collectionName = ''users'', storageType = open_storage, collectionValidators = None,
            data = [], random_calls = 0\<rparr>
   \<and> props open_storage ''users'' = None
   \<and> props open_storage ''users'' \<noteq> Some (JSON_stringify sample_host [])"
  by (simp add: new_Database_def initialize_def getDynamicProperty_def open_storage_def)

subsection \<open>The documents in memory are valid\<close>

lemma all_valid_eq:
  "collectionValidators db' = collectionValidators db \<Longrightarrow>
   all_valid db' = list_all (\<lambda>(_, d). validate db d) (data db')"
  by (simp add: all_valid_def validate_def)

lemma initialize_data:
  "data (initialize h db) = [] \<or> data (initialize h db) = data db
   \<or> (\<exists>entries. data (initialize h db)
         = foldl (\<lambda>m (ident, d). if validate db d then Map_set ident d m else m) (data db) entries)"
  by (auto simp: initialize_def recover_keeps split: sum.splits option.splits)

lemma initialize_validators: "collectionValidators (initialize h db) = collectionValidators db"
  by (auto simp: initialize_def recover_keeps split: sum.splits option.splits)

lemma new_Database_all_valid:
  assumes "new_Database h n name st vs = Inr db"
  shows "all_valid db" and "distinct (map fst (data db))"
proof -
  let ?fresh = "\<lparr>collectionName = name, storageType = st, collectionValidators = vs,
                  data = [], random_calls = n\<rparr>"
  from assms have db: "db = initialize h ?fresh"
    by (auto simp: new_Database_def split: if_splits)
  have v: "collectionValidators db = collectionValidators ?fresh"
    unfolding db by (rule initialize_validators)
  from initialize_data [of h ?fresh]
  have "list_all (\<lambda>(_, d). validate ?fresh d) (data db) \<and> distinct (map fst (data db))"
    unfolding db
  proof (elim disjE exE)
    fix entries
    assume "data (initialize h ?fresh)
         = foldl (\<lambda>m (ident, d). if validate ?fresh d then Map_set ident d m else m)
             (data ?fresh) entries"
    then show "list_all (\<lambda>(_, d). validate ?fresh d) (data (initialize h ?fresh))
        \<and> distinct (map fst (data (initialize h ?fresh)))"
      using foldl_valid_all [of "validate ?fresh" "[]" entries]
        foldl_valid_distinct [of "[]" "validate ?fresh" entries]
      by simp
  qed simp_all
  then show "all_valid db" and "distinct (map fst (data db))"
    using all_valid_eq [OF v] by simp_all
qed

lemma update_outcome:
  "update h db ident patch = (r, db') \<Longrightarrow>
     collectionValidators db' = collectionValidators db
     \<and> (data db' = data db
        \<or> (\<exists>existing. validate db (spread existing patch)
              \<and> data db' = Map_set ident (spread existing patch) (data db)))"
  by (auto simp: update_def saveChanges_eq Let_def Map_set_set Map_set_same
      split: option.splits if_splits)

lemma delete_outcome:
  "collectionValidators (snd (delete h db ident)) = collectionValidators db
   \<and> (data (snd (delete h db ident)) = data db
      \<or> data (snd (delete h db ident)) = Map_delete ident (data db))"
  by (simp add: delete_def saveChanges_eq Let_def)

lemma import_outcome:
  "collectionValidators (snd (import h db txt)) = collectionValidators db
   \<and> (data (snd (import h db txt)) = data db
      \<or> (\<exists>entries. data (snd (import h db txt))
            = foldl (\<lambda>m (ident, v). Map_set ident v m) []
                (filter (\<lambda>(_, v). validate db v) entries)))"
proof (cases "JSON_parse h txt")
  case None
  then show ?thesis by (simp add: import_unparsed)
next
  case (Some entries)
  from import_parsed [OF this, of db] show ?thesis by blast
qed

lemma filter_valid_all:
  "list_all (\<lambda>(_, d). validate db d) (filter (\<lambda>(_, v). validate db v) entries)"
  by (simp add: list_all_iff case_prod_beta)

lemma set_Map_set_subset: "set (Map_set k v m) \<subseteq> insert (k, v) (set m)"
  by (induction m) (auto split: if_splits)

lemma import_fold_valid:
  "list_all (\<lambda>(_, d). validate db d)
     (foldl (\<lambda>m (ident, v). Map_set ident v m) []
        (filter (\<lambda>(_, v). validate db v) entries))"
  by (rule foldl_Map_set_all) (simp_all add: filter_valid_all)

text \<open>
  C9. Every document of the map passes \<^verbatim>\<open>validate\<close>: this holds for the collection that the
  constructor returns, and \<^verbatim>\<open>create\<close>, \<^verbatim>\<open>update\<close>, \<^verbatim>\<open>import\<close>, \<^verbatim>\<open>delete\<close> and \<^verbatim>\<open>clear\<close> keep it.
  After an import of a text that parses it holds whatever the map held before, and the
  map then holds only entries of the text that pass validation.
\<close>

theorem documents_in_memory_valid:
  "(new_Database h n name st vs = Inr db0 \<longrightarrow> all_valid db0)
   \<and> (all_valid db \<longrightarrow>
        (create h db d = Some (r, db') \<longrightarrow> all_valid db')
        \<and> all_valid (snd (update h db ident patch))
        \<and> all_valid (snd (import h db txt))
        \<and> all_valid (snd (delete h db ident))
        \<and> all_valid (snd (clear h db)))
   \<and> (JSON_parse h txt = Some entries \<longrightarrow>
        all_valid (snd (import h db txt))
        \<and> set (data (snd (import h db txt))) \<subseteq> {e \<in> set entries. validate db (snd e)})"
proof (intro conjI impI)
  assume "new_Database h n name st vs = Inr db0"
  then show "all_valid db0" by (rule new_Database_all_valid)
next
  assume inv: "all_valid db" and c: "create h db d = Some (r, db')"
  from inv have m: "list_all (\<lambda>(_, d). validate db d) (data db)" by (simp add: all_valid_def)
  from create_outcome [OF c] m have "list_all (\<lambda>(_, d). validate db d) (data db')"
    by auto
  then show "all_valid db'"
    using all_valid_eq [OF create_validators [OF c]] by simp
next
  assume inv: "all_valid db"
  then have m: "list_all (\<lambda>(_, d). validate db d) (data db)" by (simp add: all_valid_def)
  obtain r1 db1 where u: "update h db ident patch = (r1, db1)" by (cases "update h db ident patch")
  from update_outcome [OF u] m have "list_all (\<lambda>(_, d). validate db d) (data db1)"
    by (auto simp: list_all_Map_set)
  then show "all_valid (snd (update h db ident patch))"
    using all_valid_eq [of db1 db] update_outcome [OF u] by (simp add: u)
next
  assume inv: "all_valid db"
  then have m: "list_all (\<lambda>(_, d). validate db d) (data db)" by (simp add: all_valid_def)
  from import_outcome [of h db "txt"] m
  have "list_all (\<lambda>(_, d). validate db d) (data (snd (import h db txt)))"
    using import_fold_valid [of db] by auto
  then show "all_valid (snd (import h db txt))"
    using all_valid_eq [of "snd (import h db txt)" db] import_outcome [of h db "txt"] by simp
next
  assume inv: "all_valid db"
  then have m: "list_all (\<lambda>(_, d). validate db d) (data db)" by (simp add: all_valid_def)
  from delete_outcome [of h db ident] m
  have "list_all (\<lambda>(_, d). validate db d) (data (snd (delete h db ident)))"
    by (auto simp: list_all_Map_delete)
  then show "all_valid (snd (delete h db ident))"
    using all_valid_eq [of "snd (delete h db ident)" db] delete_outcome [of h db ident] by simp
next
  assume "all_valid db"
  show "all_valid (snd (clear h db))"
    by (simp add: all_valid_def clear_keeps)
next
  assume p: "JSON_parse h txt = Some entries"
  have "list_all (\<lambda>(_, d). validate db d) (data (snd (import h db txt)))"
    unfolding import_parsed(1) [OF p]
    by (rule import_fold_valid)
  then show "all_valid (snd (import h db txt))"
    using all_valid_eq [OF import_parsed(2) [OF p, of db]] by simp
next
  assume p: "JSON_parse h txt = Some entries"
  have "set (foldl (\<lambda>m (ident, v). Map_set ident v m) acc es) \<subseteq> set acc \<union> set es"
    for acc es :: "doc jsmap"
  proof (induction es arbitrary: acc)
    case Nil
    show ?case by simp
  next
    case (Cons e es)
    obtain k v where e: "e = (k, v)" by (cases e)
    have "set (Map_set k v acc) \<subseteq> insert (k, v) (set acc)"
      by (rule set_Map_set_subset)
    with Cons.IH [of "Map_set k v acc"] show ?case by (auto simp: e)
  qed
  from this [of "[]" "filter (\<lambda>(_, v). validate db v) entries"]
  show "set (data (snd (import h db txt))) \<subseteq> {e \<in> set entries. validate db (snd e)}"
    unfolding import_parsed(1) [OF p] by (auto simp: case_prod_beta)
qed

theorem documents_in_memory_valid_witness:
  "all_valid (sample_db open_storage sample_entries)
   \<and> JSON_parse sample_host (json_entries mixed_entries) = Some mixed_entries
   \<and> all_valid (snd (import sample_host (sample_db open_storage sample_entries)
                        (json_entries mixed_entries)))
   \<and> data (snd (import sample_host (sample_db open_storage sample_entries)
                   (json_entries mixed_entries)))
       = [(''0123456789abcdef'', ann)]
   \<and> all_valid (snd (update sample_host (sample_db open_storage sample_entries)
                        ''0123456789abcdef'' [(''age'', JNum 21)]))
   \<and> all_valid (snd (delete sample_host (sample_db open_storage sample_entries)
                        ''0123456789abcdef''))"
proof -
  let ?db = "sample_db open_storage sample_entries"
  let ?t = "json_entries mixed_entries"
  have a: "all_valid ?db" by code_simp
  have p: "JSON_parse sample_host ?t = Some mixed_entries" by code_simp
  have d: "data (snd (import sample_host ?db ?t)) = [(''0123456789abcdef'', ann)]" by code_simp
  note T = documents_in_memory_valid [of sample_host _ _ _ _ _ ?db _ _ _ "''0123456789abcdef''"
      "[(''age'', JNum 21)]" ?t mixed_entries]
  from T a p show ?thesis using d by blast
qed

text \<open>The keys of the map are distinct in every state that the class produces.\<close>

lemma keys_distinct:
  "(new_Database h n name st vs = Inr db0 \<longrightarrow> distinct (map fst (data db0)))
   \<and> (distinct (map fst (data db)) \<longrightarrow>
        (create h db d = Some (r, db') \<longrightarrow> distinct (map fst (data db')))
        \<and> distinct (map fst (data (snd (update h db ident patch))))
        \<and> distinct (map fst (data (snd (import h db t))))
        \<and> distinct (map fst (data (snd (delete h db ident))))
        \<and> distinct (map fst (data (snd (clear h db)))))"
proof (intro conjI impI)
  assume "new_Database h n name st vs = Inr db0"
  then show "distinct (map fst (data db0))" by (rule new_Database_all_valid)
next
  assume inv: "distinct (map fst (data db))" and c: "create h db d = Some (r, db')"
  from create_outcome [OF c] inv show "distinct (map fst (data db'))"
    by (auto simp: Map_has_def)
next
  assume inv: "distinct (map fst (data db))"
  obtain r1 db1 where u: "update h db ident patch = (r1, db1)" by (cases "update h db ident patch")
  from update_outcome [OF u] inv show "distinct (map fst (data (snd (update h db ident patch))))"
    by (auto simp: u distinct_Map_set)
next
  assume inv: "distinct (map fst (data db))"
  from import_outcome [of h db t] inv show "distinct (map fst (data (snd (import h db t))))"
    using foldl_Map_set_distinct [of "[]"] by auto
next
  assume inv: "distinct (map fst (data db))"
  from delete_outcome [of h db ident] inv
  show "distinct (map fst (data (snd (delete h db ident))))"
    by (auto simp: distinct_Map_delete)
next
  show "distinct (map fst (data (snd (clear h db))))" by (simp add: clear_keeps)
qed

section \<open>The earlier variant\<close>

text \<open>
  In the earlier variant a failed save leaves the new document in the map and \<^verbatim>\<open>create\<close>
  still returns its identifier; and the identifier is the first candidate drawn, also when
  it is a key of the map already, in which case \<^verbatim>\<open>create\<close> replaces the document stored
  under it.
\<close>

lemma legacy_create_no_rollback:
  assumes "validate db d"
    and "set_throws (storageType db) (collectionName db)
           (JSON_stringify h (Map_set (candidate h (random_calls db)) d (data db)))"
  shows "legacy_create h db d =
     (Inr (candidate h (random_calls db)),
      db\<lparr>random_calls := random_calls db + 16,
         data := Map_set (candidate h (random_calls db)) d (data db)\<rparr>)"
  using assms
  by (simp add: legacy_create_def legacy_generateId_def legacy_set_def legacy_saveChanges_def
      setDynamicProperty_def validate_def)

lemma legacy_create_no_retry:
  assumes "validate db d"
  shows "fst (legacy_create h db d) = Inr (candidate h (random_calls db))"
    and "data (snd (legacy_create h db d)) = Map_set (candidate h (random_calls db)) d (data db)"
  using assms
  by (simp_all add: legacy_create_def legacy_generateId_def legacy_set_def legacy_saveChanges_def
      setDynamicProperty_def validate_def Let_def)

lemma legacy_create_replaces_ann:
  "fst (legacy_create sample_host (sample_db open_storage sample_entries) ben)
     = Inr ''0123456789abcdef''
   \<and> data (snd (legacy_create sample_host (sample_db open_storage sample_entries) ben))
     = [(''0123456789abcdef'', ben), (''123456789abcdef0'', cid), (''23456789abcdef01'', ben)]"
proof -
  let ?db = "sample_db open_storage sample_entries"
  have v: "validate ?db ben" by code_simp
  have c: "candidate sample_host (random_calls ?db) = ''0123456789abcdef''" by code_simp
  have m: "Map_set ''0123456789abcdef'' ben (data ?db)
     = [(''0123456789abcdef'', ben), (''123456789abcdef0'', cid), (''23456789abcdef01'', ben)]"
    by code_simp
  from legacy_create_no_retry [OF v, of sample_host] c m show ?thesis by simp
qed

end
